theory Spec2Isabelle
  imports Main "HOL-Library.Sublist"
begin

section \<open>Syntax trees as the parser hands them over\<close>

text \<open>
  The analysers work on the tree produced by the Babel parser: every node is an object
  with a \<open>type\<close> tag (a string), scalar properties (\<open>name\<close>, \<open>operator\<close>, \<open>kind\<close>,
  \<open>value\<close>), an optional source location, and child nodes stored under named keys.
  The model keeps exactly that shape. The children are listed in visiting order as
  (key, child) pairs: a single-valued key (\<open>consequent\<close>, \<open>init\<close>) occurs at most once,
  a null child does not occur at all, and an array-valued key (\<open>body\<close>, \<open>cases\<close>,
  \<open>elements\<close>) occurs once per element. Arrays with holes are outside the model.

  A scalar property holds a JavaScript value. \<open>JNum i\<close> is a number that is an integer of
  magnitude below \<open>1e21\<close>, which JavaScript prints digit by digit; any other number (a
  fraction, \<open>1e21\<close> and above, \<open>NaN\<close>) is \<open>JFloat\<close> with the text JavaScript prints for it.
  \<open>JPath\<close> is the Babel path object of the node that carries it: \<open>analyzeVariables\<close> stores it
  under \<open>__path\<close>, and it refers back to the node (\<open>path.node\<close>) and to the parent node.
\<close>

datatype jsval = JUndef | JNull | JStr string | JNum int | JFloat string | JBool bool | JPath

datatype node =
  Node (ntype: string) (nattrs: "(string \<times> jsval) list") (nloc: "(nat \<times> nat) option")
    (nkids: "(string \<times> node) list")

text \<open>
  What can be raised: Babel's refusal to traverse (with the type of the offending root), a
  file-system error (code and path), a syntax error of a parser, the repository's
  \<open>ParseError\<close> (the file it names and the error it wraps), and the two errors of the
  JavaScript engine met here: a \<open>TypeError\<close> for reading a property of \<open>undefined\<close> (with the
  property's name) and the \<open>RangeError\<close> of a recursion that exhausts the call stack.
\<close>

datatype error =
    TraverseError string
  | FsError string string
  | SyntaxError string
  | ParseError string error
  | TypeError string
  | RangeError string

definition attr :: "node \<Rightarrow> string \<Rightarrow> jsval" where
  "attr n k = (case map_of (nattrs n) k of None \<Rightarrow> JUndef | Some v \<Rightarrow> v)"

text \<open>\<open>node.name\<close> of an identifier is always a string.\<close>

definition nname :: "node \<Rightarrow> string" where
  "nname n = (case attr n ''name'' of JStr s \<Rightarrow> s | _ \<Rightarrow> [])"

definition childs :: "node \<Rightarrow> string \<Rightarrow> node list" where
  "childs n k = map snd (filter (\<lambda>kc. fst kc = k) (nkids n))"

definition child :: "node \<Rightarrow> string \<Rightarrow> node option" where
  "child n k = (case childs n k of [] \<Rightarrow> None | c # _ \<Rightarrow> Some c)"

text \<open>\<open>t.isX(v)\<close> for a value that may be \<open>undefined\<close> or \<open>null\<close>.\<close>

definition is_a :: "string \<Rightarrow> node option \<Rightarrow> bool" where
  "is_a ty v = (case v of None \<Rightarrow> False | Some n \<Rightarrow> ntype n = ty)"

text \<open>\<open>node.loc?.start.line || 0\<close> and \<open>node.loc?.start.column || 0\<close>.\<close>

definition line_of :: "node \<Rightarrow> nat" where
  "line_of n = (case nloc n of None \<Rightarrow> 0 | Some lc \<Rightarrow> fst lc)"

definition column_of :: "node \<Rightarrow> nat" where
  "column_of n = (case nloc n of None \<Rightarrow> 0 | Some lc \<Rightarrow> snd lc)"

definition loc_of :: "node \<Rightarrow> nat \<times> nat" where
  "loc_of n = (line_of n, column_of n)"

text \<open>The alias groups of \<open>@babel/types\<close> that the analysers test.\<close>

definition isFunction :: "node \<Rightarrow> bool" where
  "isFunction n = (ntype n \<in> set [''FunctionDeclaration'', ''FunctionExpression'',
     ''ObjectMethod'', ''ArrowFunctionExpression'', ''ClassMethod'', ''ClassPrivateMethod''])"

definition isLiteral :: "node option \<Rightarrow> bool" where
  "isLiteral v = (case v of None \<Rightarrow> False | Some n \<Rightarrow>
     ntype n \<in> set [''StringLiteral'', ''NumericLiteral'', ''NullLiteral'', ''BooleanLiteral'',
       ''RegExpLiteral'', ''TemplateLiteral'', ''BigIntLiteral'', ''DecimalLiteral''])"

definition isLoop5 :: "string \<Rightarrow> bool" where
  "isLoop5 ty = (ty = ''ForStatement'' \<or> ty = ''ForInStatement'' \<or> ty = ''ForOfStatement'' \<or>
     ty = ''WhileStatement'' \<or> ty = ''DoWhileStatement'')"

definition isLoop3 :: "string \<Rightarrow> bool" where
  "isLoop3 ty = (ty = ''ForStatement'' \<or> ty = ''WhileStatement'' \<or> ty = ''DoWhileStatement'')"

definition isFunctionLike3 :: "string \<Rightarrow> bool" where
  "isFunctionLike3 ty = (ty = ''FunctionDeclaration'' \<or> ty = ''FunctionExpression'' \<or>
     ty = ''ArrowFunctionExpression'')"

lemma size_kid: "kc \<in> set (nkids n) \<Longrightarrow> size (snd kc) < size n"
proof (cases n)
  case (Node ty at lc ks)
  assume "kc \<in> set (nkids n)"
  with Node have mem: "kc \<in> set ks" by simp
  have "size_prod (\<lambda>_. 0) size kc \<le> size_list (size_prod (\<lambda>_. 0) size) ks"
    using mem by (rule size_list_estimation') simp
  moreover have "size (snd kc) \<le> size_prod (\<lambda>_. 0) size kc"
    by (cases kc) simp
  ultimately show ?thesis using Node by simp
qed

lemma size_kid_pair [termination_simp]: "(k, c) \<in> set (nkids n) \<Longrightarrow> size c < size n"
  using size_kid [of "(k, c)" n] by simp

lemma size_childs [termination_simp]: "c \<in> set (childs n k) \<Longrightarrow> size c < size n"
  by (auto simp: childs_def dest: size_kid)

lemma size_child [termination_simp]: "child n k = Some c \<Longrightarrow> size c < size n"
  by (auto simp: child_def split: list.splits intro: size_childs [of c n k])

section \<open>Traversal\<close>

text \<open>
  Babel's \<open>traverse(root, visitors)\<close> walks the proper descendants of the root in
  pre-order and calls the visitor registered for a node's type with the node's path.
  Without an explicit scope it accepts only a \<open>File\<close> or \<open>Program\<close> root and raises
  otherwise ("You must pass a scope and parentPath unless traversing a Program/File").
  A path is modelled by its node and the list of its ancestor nodes, nearest first:
  \<open>path.node\<close> is the node and \<open>path.parent\<close> is the parent \<^emph>\<open>node\<close> (the parent path is
  \<open>path.parentPath\<close>, which the analysers never read).
\<close>

type_synonym path = "node \<times> node list"

lemma size_nkids: "size_list (size_prod (\<lambda>_. 0) size) (nkids n) < size n"
  by (cases n) simp

function descend :: "node list \<Rightarrow> node \<Rightarrow> path list"
  and descend_kids :: "node list \<Rightarrow> (string \<times> node) list \<Rightarrow> path list" where
  "descend anc n = descend_kids (n # anc) (nkids n)"
| "descend_kids anc [] = []"
| "descend_kids anc (kc # kcs) = (snd kc, anc) # descend anc (snd kc) @ descend_kids anc kcs"
  by pat_completeness auto
termination
proof (relation "measure (\<lambda>x. case x of
    Inl (anc, n) \<Rightarrow> 2 * size n
  | Inr (anc, kcs) \<Rightarrow> 2 * size_list (size_prod (\<lambda>_. 0) size) kcs + 1)", goal_cases)
  case 1
  show ?case by simp
next
  case (2 anc n)
  show ?case using size_nkids [of n] by simp
next
  case (3 anc kc kcs)
  show ?case by (cases kc) simp
next
  case (4 anc kc kcs)
  show ?case by simp
qed

definition traverse :: "node \<Rightarrow> error + path list" where
  "traverse root =
     (if ntype root = ''File'' \<or> ntype root = ''Program'' then Inr (descend [] root)
      else Inl (TraverseError (ntype root)))"

definition path_parent :: "path \<Rightarrow> node option" where
  "path_parent p = (case snd p of [] \<Rightarrow> None | a # _ \<Rightarrow> Some a)"

text \<open>
  \<open>path.getFunctionParent()\<close>: the closest ancestor path whose node is a function.
  The root has no path of its own, and being a \<open>File\<close> or \<open>Program\<close> it is no function.
\<close>

definition getFunctionParent :: "path \<Rightarrow> node option" where
  "getFunctionParent p = find isFunction (snd p)"

text \<open>
  Several helpers climb with \<open>currentPath = currentPath.parent\<close>. The variable then holds
  a path on entry, the parent node after one step (\<open>parent\<close> of a path is a node), and
  \<open>undefined\<close> after two (a node has no \<open>parent\<close> property). A node has no \<open>node\<close>
  property either, while a path does carry the \<open>type\<close> of its node.
\<close>

datatype pv = PPath path | PNode node | PUndef

fun pv_node :: "pv \<Rightarrow> node option" where
  "pv_node (PPath p) = Some (fst p)"
| "pv_node (PNode n) = None"
| "pv_node PUndef = None"

fun pv_self :: "pv \<Rightarrow> node option" where
  "pv_self (PPath p) = Some (fst p)"
| "pv_self (PNode n) = Some n"
| "pv_self PUndef = None"

fun pv_parent :: "pv \<Rightarrow> pv" where
  "pv_parent (PPath p) = (case path_parent p of None \<Rightarrow> PUndef | Some a \<Rightarrow> PNode a)"
| "pv_parent (PNode n) = PUndef"
| "pv_parent PUndef = PUndef"

fun pv_rank :: "pv \<Rightarrow> nat" where
  "pv_rank (PPath p) = 2"
| "pv_rank (PNode n) = 1"
| "pv_rank PUndef = 0"

lemma pv_rank_parent: "cur \<noteq> PUndef \<Longrightarrow> pv_rank (pv_parent cur) < pv_rank cur"
  by (cases cur) (auto split: option.splits)

section \<open>VariableTracker\<close>

record VariableUsage =
  vu_type :: string
  vu_location :: "nat \<times> nat"
  vu_context :: string
  vu_isAssignment :: bool
  vu_isRead :: bool
  vu_isFunctionCall :: bool
  vu_isPropertyAccess :: bool
  vu_isArrayAccess :: bool
  vu_isConditional :: bool
  vu_isLoopVariable :: bool
  vu_frequency :: string

record VariableInfo =
  vi_name :: string
  vi_type :: string
  vi_scope :: string
  vi_declarationType :: string
  vi_usage :: "VariableUsage list"
  vi_dependencies :: "string list"
  vi_isExported :: bool
  vi_isImported :: bool
  vi_line :: nat
  vi_column :: nat
  vi_value :: jsval
  vi_isOptional :: bool
  vi_isReadonly :: bool
  vi_isPrivate :: bool
  vi_isStatic :: bool
  vi_complexity :: nat
  vi_usageCount :: nat
  vi_lastUsedAt :: "(nat \<times> nat) option"

subsection \<open>Complexity of a variable\<close>

text \<open>
  \<open>findConditionalNodes\<close> and \<open>findLoopNodes\<close> call their callback once per matching
  node they reach; the callback only increments a counter, so the model returns the number
  of calls.
\<close>

fun findConditionalNodes :: "node \<Rightarrow> nat" where
  "findConditionalNodes n =
     (if ntype n = ''IfStatement'' \<or> ntype n = ''ConditionalExpression'' \<or>
         ntype n = ''SwitchStatement'' then 1 else 0) +
     (if ntype n = ''BlockStatement'' then
        sum_list (map findConditionalNodes (childs n ''body''))
      else if ntype n = ''IfStatement'' then
        (case child n ''consequent'' of None \<Rightarrow> 0 | Some c \<Rightarrow> findConditionalNodes c) +
        (case child n ''alternate'' of None \<Rightarrow> 0 | Some a \<Rightarrow> findConditionalNodes a)
      else if isLoop3 (ntype n) then
        (case child n ''body'' of None \<Rightarrow> 0 | Some b \<Rightarrow> findConditionalNodes b)
      else if ntype n = ''SwitchStatement'' then
        sum_list (map findConditionalNodes (childs n ''cases''))
      else if isFunctionLike3 (ntype n) then
        (case child n ''body'' of None \<Rightarrow> 0 | Some b \<Rightarrow> findConditionalNodes b)
      else 0)"

fun findLoopNodes :: "node \<Rightarrow> nat" where
  "findLoopNodes n =
     (if isLoop5 (ntype n) then 1 else 0) +
     (if ntype n = ''BlockStatement'' then
        sum_list (map findLoopNodes (childs n ''body''))
      else if ntype n = ''IfStatement'' then
        (case child n ''consequent'' of None \<Rightarrow> 0 | Some c \<Rightarrow> findLoopNodes c) +
        (case child n ''alternate'' of None \<Rightarrow> 0 | Some a \<Rightarrow> findLoopNodes a)
      else if isLoop3 (ntype n) then
        (case child n ''body'' of None \<Rightarrow> 0 | Some b \<Rightarrow> findLoopNodes b)
      else if isFunctionLike3 (ntype n) then
        (case child n ''body'' of None \<Rightarrow> 0 | Some b \<Rightarrow> findLoopNodes b)
      else 0)"

declare findConditionalNodes.simps [simp del] findLoopNodes.simps [simp del]

definition countConditions :: "node \<Rightarrow> nat" where
  "countConditions n = findConditionalNodes n"

definition countLoops :: "node \<Rightarrow> nat" where
  "countLoops n = findLoopNodes n"

definition VT_calculateComplexity :: "node \<Rightarrow> nat" where
  "VT_calculateComplexity n =
     (if ntype n = ''FunctionDeclaration'' \<or> ntype n = ''ArrowFunctionExpression'' then
        1 + countConditions n + countLoops n
      else if ntype n = ''VariableDeclarator'' then
        (case child n ''init'' of None \<Rightarrow> 1
         | Some i \<Rightarrow> 1 + countConditions i + countLoops i)
      else 1)"

subsection \<open>Building a descriptor\<close>

definition getVariableName :: "node \<Rightarrow> string" where
  "getVariableName n =
     (case child n ''id'' of None \<Rightarrow> ''unknown''
      | Some i \<Rightarrow>
          if ntype i = ''Identifier'' then nname i
          else if ntype i = ''ObjectPattern'' then ''destructured''
          else if ntype i = ''ArrayPattern'' then ''destructured''
          else ''unknown'')"

definition inferVariableType :: "node \<Rightarrow> string" where
  "inferVariableType n =
     (if ntype n = ''FunctionDeclaration'' \<or> ntype n = ''ArrowFunctionExpression'' then ''function''
      else if ntype n = ''ClassDeclaration'' then ''class''
      else (case child n ''init'' of None \<Rightarrow> ''any''
        | Some i \<Rightarrow>
            if ntype i = ''StringLiteral'' then ''string''
            else if ntype i = ''NumericLiteral'' then ''number''
            else if ntype i = ''BooleanLiteral'' then ''boolean''
            else if ntype i = ''ArrayExpression'' then ''array''
            else if ntype i = ''ObjectExpression'' then ''object''
            else if ntype i = ''FunctionExpression'' \<or> ntype i = ''ArrowFunctionExpression''
              then ''function''
            else ''any''))"

text \<open>
  \<open>determineScope\<close>: the loop that looks for an enclosing class tests \<open>currentPath.node\<close>
  and steps with \<open>currentPath = currentPath.parent\<close>; \<open>determineScope_loop\<close> is true when
  the loop returns \<open>'class'\<close>.
\<close>

function determineScope_loop :: "pv \<Rightarrow> bool" where
  "determineScope_loop cur =
     (if cur = PUndef then False
      else (case pv_node cur of
          None \<Rightarrow> determineScope_loop (pv_parent cur)
        | Some n \<Rightarrow>
            if ntype n = ''ClassMethod'' \<or> ntype n = ''ClassPrivateMethod'' then True
            else if ntype n = ''ClassDeclaration'' \<or> ntype n = ''ClassExpression'' then True
            else determineScope_loop (pv_parent cur)))"
  by pat_completeness auto
termination
  by (relation "measure pv_rank") (auto simp: pv_rank_parent)

definition determineScope :: "path \<Rightarrow> string" where
  "determineScope p =
     (let functionParent = getFunctionParent p in
      if determineScope_loop (PPath p) then ''class''
      else if functionParent \<noteq> None then ''function''
      else ''module'')"

text \<open>
  \<open>getDeclarationType\<close> reads the path that \<open>analyzeVariables\<close> stored on the node as
  \<open>__path\<close> just before; the model passes that path along.
\<close>

definition getDeclarationType :: "path \<Rightarrow> string \<Rightarrow> string" where
  "getDeclarationType p ty =
     (let n = fst p in
      if ty = ''function'' then ''function''
      else if ty = ''class'' then ''class''
      else if ty = ''arrow'' then ''arrow''
      else if ntype n = ''VariableDeclarator'' then
        (if is_a ''ArrowFunctionExpression'' (child n ''init'') then ''arrow''
         else (case path_parent p of
             None \<Rightarrow> ''var''
           | Some par \<Rightarrow>
               if ntype par = ''VariableDeclaration'' then
                 (if attr par ''kind'' = JStr ''var'' then ''var''
                  else if attr par ''kind'' = JStr ''let'' then ''let''
                  else if attr par ''kind'' = JStr ''const'' then ''const''
                  else ''var'')
               else ''var''))
      else ''var'')"

function isExported_loop :: "pv \<Rightarrow> bool" where
  "isExported_loop cur =
     (if cur = PUndef then False
      else if is_a ''ExportNamedDeclaration'' (pv_node cur) \<or>
              is_a ''ExportDefaultDeclaration'' (pv_node cur) then True
      else isExported_loop (pv_parent cur))"
  by pat_completeness auto
termination
  by (relation "measure pv_rank") (auto simp: pv_rank_parent)

definition isExported :: "path \<Rightarrow> bool" where
  "isExported p = isExported_loop (pv_parent (PPath p))"

definition extractValue :: "node \<Rightarrow> jsval" where
  "extractValue n =
     (if ntype n = ''VariableDeclarator'' then
        (case child n ''init'' of None \<Rightarrow> JUndef
         | Some i \<Rightarrow> if isLiteral (Some i) then attr i ''value'' else JUndef)
      else JUndef)"

definition isPrivate :: "string \<Rightarrow> bool" where
  "isPrivate name = prefix ''_'' name"

definition createVariableInfo :: "path \<Rightarrow> string \<Rightarrow> string \<Rightarrow> VariableInfo" where
  "createVariableInfo p filePath ty =
     (let n = fst p;
          name = getVariableName n;
          scope = determineScope p;
          declarationType = getDeclarationType p ty
      in \<lparr> vi_name = name,
           vi_type = inferVariableType n,
           vi_scope = scope,
           vi_declarationType = declarationType,
           vi_usage = [],
           vi_dependencies = [],
           vi_isExported = isExported p,
           vi_isImported = False,
           vi_line = line_of n,
           vi_column = column_of n,
           vi_value = extractValue n,
           vi_isOptional = False,
           vi_isReadonly = (declarationType = ''const''),
           vi_isPrivate = isPrivate name,
           vi_isStatic = False,
           vi_complexity = VT_calculateComplexity n,
           vi_usageCount = 0,
           vi_lastUsedAt = None \<rparr>)"

subsection \<open>Classifying one occurrence\<close>

function isInConditionalContext_loop :: "pv \<Rightarrow> bool" where
  "isInConditionalContext_loop cur =
     (if cur = PUndef then False
      else if is_a ''IfStatement'' (pv_self cur) \<or> is_a ''ConditionalExpression'' (pv_self cur) \<or>
              is_a ''SwitchStatement'' (pv_self cur) \<or> is_a ''SwitchCase'' (pv_self cur) then True
      else isInConditionalContext_loop (pv_parent cur))"
  by pat_completeness auto
termination
  by (relation "measure pv_rank") (auto simp: pv_rank_parent)

definition isInConditionalContext :: "path \<Rightarrow> bool" where
  "isInConditionalContext p = isInConditionalContext_loop (pv_parent (PPath p))"

definition getUsageType :: "path \<Rightarrow> string" where
  "getUsageType p =
     (if is_a ''AssignmentExpression'' (path_parent p) then ''assignment''
      else if is_a ''CallExpression'' (path_parent p) then ''function_call''
      else if is_a ''MemberExpression'' (path_parent p) then ''property_access''
      else if is_a ''ArrayExpression'' (path_parent p) then ''array_access''
      else if is_a ''ConditionalExpression'' (path_parent p) then ''conditional''
      else if isInConditionalContext p then ''conditional''
      else if (case path_parent p of None \<Rightarrow> False | Some par \<Rightarrow> isLoop5 (ntype par)) then ''loop''
      else ''read'')"

text \<open>\<open>currentPath.parent\<close> read as a node, as in \<open>t.isVariableDeclarator(currentPath.parent)\<close>.\<close>

fun pv_parent_node :: "pv \<Rightarrow> node option" where
  "pv_parent_node (PPath p) = path_parent p"
| "pv_parent_node (PNode n) = None"
| "pv_parent_node PUndef = None"

function getUsageContext_loop :: "pv \<Rightarrow> string" where
  "getUsageContext_loop cur =
     (if cur = PUndef then ''global''
      else (case pv_node cur of
          None \<Rightarrow> getUsageContext_loop (pv_parent cur)
        | Some n \<Rightarrow>
            if ntype n = ''FunctionDeclaration'' \<and> child n ''id'' \<noteq> None then
              ''function:'' @ (case child n ''id'' of None \<Rightarrow> [] | Some i \<Rightarrow> nname i)
            else if (ntype n = ''FunctionExpression'' \<or> ntype n = ''ArrowFunctionExpression'') \<and>
                    is_a ''VariableDeclarator'' (pv_parent_node cur) \<and>
                    (case pv_parent_node cur of None \<Rightarrow> False
                     | Some par \<Rightarrow> is_a ''Identifier'' (child par ''id'')) then
              ''function:'' @ (case pv_parent_node cur of None \<Rightarrow> []
                 | Some par \<Rightarrow> (case child par ''id'' of None \<Rightarrow> [] | Some i \<Rightarrow> nname i))
            else getUsageContext_loop (pv_parent cur)))"
  by pat_completeness auto
termination
  by (relation "measure pv_rank") (auto simp: pv_rank_parent)

definition getUsageContext :: "path \<Rightarrow> string" where
  "getUsageContext p = getUsageContext_loop (pv_parent (PPath p))"

definition isAssignment :: "path \<Rightarrow> bool" where
  "isAssignment p = is_a ''AssignmentExpression'' (path_parent p)"

definition isRead :: "path \<Rightarrow> bool" where
  "isRead p = (\<not> is_a ''AssignmentExpression'' (path_parent p))"

definition isFunctionCall :: "path \<Rightarrow> bool" where
  "isFunctionCall p = is_a ''CallExpression'' (path_parent p)"

definition isPropertyAccess :: "path \<Rightarrow> bool" where
  "isPropertyAccess p = is_a ''MemberExpression'' (path_parent p)"

definition isArrayAccess :: "path \<Rightarrow> bool" where
  "isArrayAccess p = is_a ''ArrayExpression'' (path_parent p)"

function isConditional_loop :: "pv \<Rightarrow> bool" where
  "isConditional_loop cur =
     (if cur = PUndef then False
      else if is_a ''IfStatement'' (pv_node cur) \<or> is_a ''ConditionalExpression'' (pv_node cur)
        then True
      else isConditional_loop (pv_parent cur))"
  by pat_completeness auto
termination
  by (relation "measure pv_rank") (auto simp: pv_rank_parent)

definition isConditional :: "path \<Rightarrow> bool" where
  "isConditional p = isConditional_loop (pv_parent (PPath p))"

text \<open>
  \<open>isLoopVariable\<close>: once the climbing variable is a loop node, every branch of the source
  returns true (the inspection of a \<open>for\<close> statement's parts changes nothing).
\<close>

function isLoopVariable_loop :: "pv \<Rightarrow> bool" where
  "isLoopVariable_loop cur =
     (if cur = PUndef then False
      else if (case pv_self cur of None \<Rightarrow> False | Some n \<Rightarrow> isLoop5 (ntype n)) then True
      else isLoopVariable_loop (pv_parent cur))"
  by pat_completeness auto
termination
  by (relation "measure pv_rank") (auto simp: pv_rank_parent)

definition isLoopVariable :: "path \<Rightarrow> bool" where
  "isLoopVariable p = isLoopVariable_loop (pv_parent (PPath p))"

definition mkUsage :: "path \<Rightarrow> VariableUsage" where
  "mkUsage p =
     \<lparr> vu_type = getUsageType p,
       vu_location = (line_of (fst p), column_of (fst p)),
       vu_context = getUsageContext p,
       vu_isAssignment = isAssignment p,
       vu_isRead = isRead p,
       vu_isFunctionCall = isFunctionCall p,
       vu_isPropertyAccess = isPropertyAccess p,
       vu_isArrayAccess = isArrayAccess p,
       vu_isConditional = isConditional p,
       vu_isLoopVariable = isLoopVariable p,
       vu_frequency = ''medium'' \<rparr>"

subsection \<open>The two passes of analyzeVariables\<close>

text \<open>
  The descriptors are objects shared between the result array and \<open>variableMap\<close>. The model
  keeps them in the array and lets the map hold the array index of the descriptor it refers
  to, so an update through the map is an update of that array slot.
\<close>

type_synonym vstate = "VariableInfo list \<times> (string \<rightharpoonup> nat)"

definition declare_var :: "VariableInfo \<Rightarrow> vstate \<Rightarrow> vstate" where
  "declare_var info st = (fst st @ [info], (snd st)(vi_name info \<mapsto> length (fst st)))"

definition extract_visit :: "string \<Rightarrow> path \<Rightarrow> vstate \<Rightarrow> vstate" where
  "extract_visit filePath p st =
     (let n = fst p in
      if ntype n = ''VariableDeclarator'' then
        (if is_a ''Identifier'' (child n ''id'')
         then declare_var (createVariableInfo p filePath ''variable'') st else st)
      else if ntype n = ''FunctionDeclaration'' then
        (if child n ''id'' \<noteq> None
         then declare_var (createVariableInfo p filePath ''function'') st else st)
      else if ntype n = ''ClassDeclaration'' then
        (if child n ''id'' \<noteq> None
         then declare_var (createVariableInfo p filePath ''class'') st else st)
      else if ntype n = ''ArrowFunctionExpression'' then
        (if is_a ''VariableDeclarator'' (path_parent p) \<and>
            (case path_parent p of None \<Rightarrow> False
             | Some par \<Rightarrow> is_a ''Identifier'' (child par ''id''))
         then declare_var (createVariableInfo p filePath ''arrow'') st else st)
      else st)"

definition add_usage :: "VariableUsage \<Rightarrow> VariableInfo \<Rightarrow> VariableInfo" where
  "add_usage u v =
     v\<lparr> vi_usage := vi_usage v @ [u],
        vi_usageCount := vi_usageCount v + 1,
        vi_lastUsedAt := Some (vu_location u) \<rparr>"

definition usage_visit :: "(string \<rightharpoonup> nat) \<Rightarrow> path \<Rightarrow> VariableInfo list \<Rightarrow> VariableInfo list" where
  "usage_visit variableMap p vars =
     (if ntype (fst p) = ''Identifier'' then
        (case variableMap (nname (fst p)) of
           None \<Rightarrow> vars
         | Some i \<Rightarrow> vars[i := add_usage (mkUsage p) (vars ! i)])
      else vars)"

definition analyzeVariableUsage :: "node \<Rightarrow> vstate \<Rightarrow> error + VariableInfo list" where
  "analyzeVariableUsage ast st =
     (case traverse ast of
        Inl e \<Rightarrow> Inl e
      | Inr ps \<Rightarrow> Inr (fold (usage_visit (snd st)) ps (fst st)))"

definition analyzeVariables :: "node \<Rightarrow> string \<Rightarrow> error + VariableInfo list" where
  "analyzeVariables ast filePath =
     (case traverse ast of
        Inl e \<Rightarrow> Inl e
      | Inr ps \<Rightarrow> analyzeVariableUsage ast (fold (extract_visit filePath) ps ([], Map.empty)))"

subsection \<open>What analyzeVariables leaves on the tree\<close>

text \<open>
  Each of the four visitors of the first pass, before it builds a descriptor, stores the
  path on the node: \<^verbatim>\<open>(path.node as any).__path = path\<close>. The property is never removed, so
  the tree that the caller goes on to use carries it. An assignment to a property that is
  not there adds it after the others.
\<close>

definition stores_path :: "path \<Rightarrow> bool" where
  "stores_path p =
     (let n = fst p in
      if ntype n = ''VariableDeclarator'' then is_a ''Identifier'' (child n ''id'')
      else if ntype n = ''FunctionDeclaration'' then child n ''id'' \<noteq> None
      else if ntype n = ''ClassDeclaration'' then child n ''id'' \<noteq> None
      else if ntype n = ''ArrowFunctionExpression'' then
        is_a ''VariableDeclarator'' (path_parent p) \<and>
        (case path_parent p of None \<Rightarrow> False
         | Some par \<Rightarrow> is_a ''Identifier'' (child par ''id''))
      else False)"

definition set_path :: "node \<Rightarrow> node" where
  "set_path n =
     Node (ntype n)
       (if map_of (nattrs n) ''__path'' = None then nattrs n @ [(''__path'', JPath)]
        else map (\<lambda>kv. if fst kv = ''__path'' then (''__path'', JPath) else kv) (nattrs n))
       (nloc n) (nkids n)"

function annotate :: "node list \<Rightarrow> node \<Rightarrow> node"
  and annotate_kids :: "node list \<Rightarrow> (string \<times> node) list \<Rightarrow> (string \<times> node) list" where
  "annotate anc n =
     (let m = Node (ntype n) (nattrs n) (nloc n) (annotate_kids (n # anc) (nkids n))
      in if stores_path (n, anc) then set_path m else m)"
| "annotate_kids anc [] = []"
| "annotate_kids anc (kc # kcs) = (fst kc, annotate anc (snd kc)) # annotate_kids anc kcs"
  by pat_completeness auto
termination
proof (relation "measure (\<lambda>x. case x of
    Inl (anc, n) \<Rightarrow> 2 * size n
  | Inr (anc, kcs) \<Rightarrow> 2 * size_list (size_prod (\<lambda>_. 0) size) kcs + 1)", goal_cases)
  case 1
  show ?case by simp
next
  case (2 anc n)
  show ?case using size_nkids [of n] by simp
next
  case (3 anc kc kcs)
  show ?case by (cases kc) simp
next
  case (4 anc kc kcs)
  show ?case by simp
qed

text \<open>The tree after \<open>analyzeVariables\<close> has returned; the root itself is not visited.\<close>

definition analyzeVariables_tree :: "node \<Rightarrow> node" where
  "analyzeVariables_tree ast =
     (if ntype ast = ''File'' \<or> ntype ast = ''Program''
      then Node (ntype ast) (nattrs ast) (nloc ast) (annotate_kids [ast] (nkids ast))
      else ast)"

section \<open>FunctionAnalyzer: cyclomatic complexity\<close>

text \<open>
  \<open>findComplexityNodes\<close> calls its callback (\<open>complexity++\<close>) at most once for the node it
  is given and then recurses into the bodies it knows; the model returns the number of
  calls.
\<close>

fun findComplexityNodes :: "node \<Rightarrow> nat" where
  "findComplexityNodes n =
     (if ntype n = ''IfStatement'' \<or> ntype n = ''ConditionalExpression'' \<or>
         ntype n = ''SwitchStatement'' then 1
      else if isLoop5 (ntype n) then 1
      else if ntype n = ''CatchClause'' then 1
      else if ntype n = ''LogicalExpression'' \<and>
              (attr n ''operator'' = JStr ''&&'' \<or> attr n ''operator'' = JStr ''||'') then 1
      else 0) +
     (if ntype n = ''BlockStatement'' then
        sum_list (map findComplexityNodes (childs n ''body''))
      else if ntype n = ''IfStatement'' then
        (case child n ''consequent'' of None \<Rightarrow> 0 | Some c \<Rightarrow> findComplexityNodes c) +
        (case child n ''alternate'' of None \<Rightarrow> 0 | Some a \<Rightarrow> findComplexityNodes a)
      else if isLoop3 (ntype n) then
        (case child n ''body'' of None \<Rightarrow> 0 | Some b \<Rightarrow> findComplexityNodes b)
      else if ntype n = ''SwitchStatement'' then
        sum_list (map findComplexityNodes (childs n ''cases''))
      else 0)"

declare findComplexityNodes.simps [simp del]

definition FA_calculateComplexity :: "node \<Rightarrow> nat" where
  "FA_calculateComplexity n = 1 + findComplexityNodes n"

section \<open>FlowDiagramGenerator\<close>

record FlowNode =
  fn_id :: string
  fn_label :: string
  fn_type :: string
  fn_properties :: "(string \<times> jsval) list"

record FlowEdge =
  fe_from :: string
  fe_to :: string
  fe_type :: string
  fe_condition :: "string option"

text \<open>
  The metadata of a diagram is its kind and title; the description, a fixed literal in each
  generator, is left out.
\<close>

record FlowDiagram =
  fd_nodes :: "FlowNode list"
  fd_edges :: "FlowEdge list"
  fd_type :: string
  fd_title :: string

type_synonym fstate = "FlowNode list \<times> FlowEdge list"

definition push_node :: "FlowNode \<Rightarrow> fstate \<Rightarrow> fstate" where
  "push_node n st = (fst st @ [n], snd st)"

definition push_edge :: "FlowEdge \<Rightarrow> fstate \<Rightarrow> fstate" where
  "push_edge e st = (fst st, snd st @ [e])"

definition mkNode :: "string \<Rightarrow> string \<Rightarrow> string \<Rightarrow> FlowNode" where
  "mkNode i l t = \<lparr> fn_id = i, fn_label = l, fn_type = t, fn_properties = [] \<rparr>"

definition mkEdge :: "string \<Rightarrow> string \<Rightarrow> string \<Rightarrow> FlowEdge" where
  "mkEdge f t ty = \<lparr> fe_from = f, fe_to = t, fe_type = ty, fe_condition = None \<rparr>"

subsection \<open>Values in template strings\<close>

definition digit_char :: "nat \<Rightarrow> char" where
  "digit_char d = ''0123456789'' ! d"

text \<open>The decimal digits of a counter value, as a template string prints it.\<close>

fun decimal :: "nat \<Rightarrow> string" where
  "decimal n = (if 10 \<le> n then decimal (n div 10) else []) @ [digit_char (n mod 10)]"

declare decimal.simps [simp del]

definition decimal_int :: "int \<Rightarrow> string" where
  "decimal_int i = (if i < 0 then ''-'' @ decimal (nat (- i)) else decimal (nat i))"

text \<open>
  What a template string prints for a value. An integer below \<open>1e21\<close> is printed with all its
  digits; every other number brings its text along. An object is printed as
  \<^verbatim>\<open>[object Object]\<close>.
\<close>

fun js_to_string :: "jsval \<Rightarrow> string" where
  "js_to_string JUndef = ''undefined''"
| "js_to_string JNull = ''null''"
| "js_to_string (JStr s) = s"
| "js_to_string (JNum i) = decimal_int i"
| "js_to_string (JFloat s) = s"
| "js_to_string (JBool b) = (if b then ''true'' else ''false'')"
| "js_to_string JPath = ''[object Object]''"

fun truthy :: "jsval \<Rightarrow> bool" where
  "truthy JUndef = False"
| "truthy JNull = False"
| "truthy (JStr s) = (s \<noteq> [])"
| "truthy (JNum i) = (i \<noteq> 0)"
| "truthy (JFloat s) = (s \<noteq> ''NaN'')"
| "truthy (JBool b) = b"
| "truthy JPath = True"

text \<open>\<open>c.toUpperCase()\<close> of one ASCII character.\<close>

definition toUpperCase :: "char \<Rightarrow> char" where
  "toUpperCase c =
     (if 97 \<le> (of_char c :: nat) \<and> (of_char c :: nat) \<le> 122 then char_of (of_char c - 32 :: nat) else c)"

subsection \<open>Control flow\<close>

text \<open>
  Every helper below receives \<open>nodeId\<close> as a number, that is by value: its \<open>nodeId++\<close> advances
  its own copy only, and the caller's variable keeps its value. The helpers therefore take the
  number and return the extended node and edge lists, and no counter.
\<close>

definition analyzeIfStatement :: "node \<Rightarrow> nat \<Rightarrow> string \<Rightarrow> fstate \<Rightarrow> fstate" where
  "analyzeIfStatement stmt nodeId parentId st =
     (let ifId = ''if_'' @ decimal nodeId;
          st1 = push_edge (mkEdge parentId ifId ''normal'')
                  (push_node (mkNode ifId ''If Condition'' ''decision'') st);
          thenId = ''then_'' @ decimal (nodeId + 1);
          st2 = push_edge ((mkEdge ifId thenId ''conditional'') \<lparr> fe_condition := Some ''true'' \<rparr>)
                  (push_node (mkNode thenId ''Then'' ''process'') st1)
      in if child stmt ''alternate'' \<noteq> None then
           (let elseId = ''else_'' @ decimal (nodeId + 2)
            in push_edge ((mkEdge ifId elseId ''conditional'') \<lparr> fe_condition := Some ''false'' \<rparr>)
                 (push_node (mkNode elseId ''Else'' ''process'') st2))
         else st2)"

definition analyzeLoopStatement :: "node \<Rightarrow> nat \<Rightarrow> string \<Rightarrow> fstate \<Rightarrow> fstate" where
  "analyzeLoopStatement stmt nodeId parentId st =
     (let loopId = ''loop_'' @ decimal nodeId;
          loopType = (if ntype stmt = ''ForStatement'' then ''For Loop''
                      else if ntype stmt = ''WhileStatement'' then ''While Loop''
                      else ''Do-While Loop'');
          st1 = push_edge (mkEdge parentId loopId ''normal'')
                  (push_node (mkNode loopId loopType ''loop'') st);
          bodyId = ''body_'' @ decimal (nodeId + 1);
          st2 = push_edge (mkEdge loopId bodyId ''normal'')
                  (push_node (mkNode bodyId ''Loop Body'' ''process'') st1)
      in push_edge (mkEdge bodyId loopId ''loop'') st2)"

text \<open>
  The cases of a switch are numbered by the closure's own copy of \<open>nodeId\<close>, which does
  advance from case to case.
\<close>

definition caseLabel :: "node \<Rightarrow> string" where
  "caseLabel caseStmt =
     (case child caseStmt ''test'' of
        None \<Rightarrow> ''Default''
      | Some t \<Rightarrow> ''Case '' @ js_to_string
          (if truthy (attr t ''value'') then attr t ''value'' else attr t ''name''))"

fun analyzeSwitchCases :: "node list \<Rightarrow> nat \<Rightarrow> string \<Rightarrow> fstate \<Rightarrow> fstate" where
  "analyzeSwitchCases [] nodeId switchId st = st"
| "analyzeSwitchCases (caseStmt # cs) nodeId switchId st =
     (let caseId = ''case_'' @ decimal nodeId
      in analyzeSwitchCases cs (nodeId + 1) switchId
           (push_edge (mkEdge switchId caseId ''conditional'')
              (push_node (mkNode caseId (caseLabel caseStmt) ''process'') st)))"

definition analyzeSwitchStatement :: "node \<Rightarrow> nat \<Rightarrow> string \<Rightarrow> fstate \<Rightarrow> fstate" where
  "analyzeSwitchStatement stmt nodeId parentId st =
     (let switchId = ''switch_'' @ decimal nodeId
      in analyzeSwitchCases (childs stmt ''cases'') (nodeId + 1) switchId
           (push_edge (mkEdge parentId switchId ''normal'')
              (push_node (mkNode switchId ''Switch'' ''decision'') st)))"

definition analyzeStatementControlFlow :: "node \<Rightarrow> nat \<Rightarrow> string \<Rightarrow> fstate \<Rightarrow> fstate" where
  "analyzeStatementControlFlow stmt nodeId parentId st =
     (if ntype stmt = ''IfStatement'' then analyzeIfStatement stmt nodeId parentId st
      else if isLoop3 (ntype stmt) then analyzeLoopStatement stmt nodeId parentId st
      else if ntype stmt = ''SwitchStatement'' then analyzeSwitchStatement stmt nodeId parentId st
      else (let stmtId = ''stmt_'' @ decimal nodeId
            in push_edge (mkEdge parentId stmtId ''normal'')
                 (push_node (mkNode stmtId (ntype stmt) ''process'') st)))"

definition analyzeProgramControlFlow :: "path \<Rightarrow> nat \<Rightarrow> fstate \<Rightarrow> fstate" where
  "analyzeProgramControlFlow p nodeId st =
     (let programId = ''program_'' @ decimal nodeId;
          st1 = push_edge (mkEdge ''start'' programId ''normal'')
                  (push_node (mkNode programId ''Program'' ''process'') st)
      in if ntype (fst p) = ''Program'' then
           fold (\<lambda>stmt. analyzeStatementControlFlow stmt (nodeId + 1) programId)
             (childs (fst p) ''body'') st1
         else st1)"

definition FD_getFunctionName :: "path \<Rightarrow> string" where
  "FD_getFunctionName p =
     (let n = fst p in
      if ntype n = ''FunctionDeclaration'' \<and> child n ''id'' \<noteq> None then
        (case child n ''id'' of None \<Rightarrow> [] | Some i \<Rightarrow> nname i)
      else if ntype n = ''ArrowFunctionExpression'' \<or> ntype n = ''FunctionExpression'' then
        (case path_parent p of
           None \<Rightarrow> ''Anonymous''
         | Some par \<Rightarrow>
             if ntype par = ''VariableDeclarator'' \<and> is_a ''Identifier'' (child par ''id'') then
               (case child par ''id'' of None \<Rightarrow> [] | Some i \<Rightarrow> nname i)
             else ''Anonymous'')
      else if ntype n = ''ClassDeclaration'' \<and> child n ''id'' \<noteq> None then
        (case child n ''id'' of None \<Rightarrow> [] | Some i \<Rightarrow> nname i)
      else ''Anonymous'')"

definition analyzeFunctionControlFlow :: "path \<Rightarrow> nat \<Rightarrow> fstate \<Rightarrow> fstate" where
  "analyzeFunctionControlFlow p nodeId st =
     (let functionName = FD_getFunctionName p;
          functionId = ''func_'' @ functionName @ ''_'' @ decimal nodeId;
          st1 = push_node (mkNode functionId functionName ''function'') st
      in case child (fst p) ''body'' of
           None \<Rightarrow> st1
         | Some b \<Rightarrow> analyzeStatementControlFlow b (nodeId + 1) functionId st1)"

text \<open>
  \<open>generateControlFlow\<close> declares \<open>let nodeId = 0\<close> and hands it to every visitor call; since
  no callee can change it, every call receives 0.
\<close>

definition cf_visit :: "nat \<Rightarrow> path \<Rightarrow> fstate \<Rightarrow> fstate" where
  "cf_visit nodeId p st =
     (if ntype (fst p) = ''Program'' then analyzeProgramControlFlow p nodeId st
      else if ntype (fst p) = ''FunctionDeclaration'' then analyzeFunctionControlFlow p nodeId st
      else if ntype (fst p) = ''ArrowFunctionExpression'' then analyzeFunctionControlFlow p nodeId st
      else st)"

definition generateControlFlow :: "node \<Rightarrow> string \<Rightarrow> error + FlowDiagram" where
  "generateControlFlow ast filePath =
     (let nodeId = 0;
          st0 = push_node (mkNode ''start'' ''Start'' ''start'') ([], [])
      in case traverse ast of
           Inl e \<Rightarrow> Inl e
         | Inr ps \<Rightarrow>
             (let st = push_node (mkNode ''end'' ''End'' ''end'') (fold (cf_visit nodeId) ps st0)
              in Inr \<lparr> fd_nodes = fst st, fd_edges = snd st, fd_type = ''control_flow'',
                       fd_title = ''Control Flow - '' @ filePath \<rparr>))"

subsection \<open>Data flow\<close>

text \<open>
  The id of an assignment node is \<^verbatim>\<open>`assign_${Date.now()}_${Math.random()}`\<close>. The clock and
  the random source are inputs of the model: \<open>now k\<close> is the value of the \<open>k\<close>-th call of
  \<open>Date.now()\<close> and \<open>random k\<close> the printed value of the \<open>k\<close>-th call of \<open>Math.random()\<close>
  within one synthesis.
\<close>

record dstate =
  ds_nodes :: "FlowNode list"
  ds_edges :: "FlowEdge list"
  ds_variableMap :: "string \<rightharpoonup> string"
  ds_calls :: nat

definition DF_getDeclarationType :: "path \<Rightarrow> jsval" where
  "DF_getDeclarationType p =
     (if ntype (fst p) = ''VariableDeclarator'' then
        (case path_parent p of
           None \<Rightarrow> JStr ''var''
         | Some par \<Rightarrow> if ntype par = ''VariableDeclaration'' then attr par ''kind'' else JStr ''var'')
      else JStr ''var'')"

definition DF_extractValue :: "node option \<Rightarrow> jsval" where
  "DF_extractValue v = (case v of None \<Rightarrow> JUndef | Some n \<Rightarrow> if isLiteral (Some n) then attr n ''value'' else JUndef)"

definition df_visit :: "(nat \<Rightarrow> nat) \<Rightarrow> (nat \<Rightarrow> string) \<Rightarrow> path \<Rightarrow> dstate \<Rightarrow> dstate" where
  "df_visit now random p st =
     (let n = fst p in
      if ntype n = ''VariableDeclarator'' then
        (case child n ''id'' of
           None \<Rightarrow> st
         | Some i \<Rightarrow>
             if ntype i = ''Identifier'' then
               (let varId = ''var_'' @ nname i
                in st \<lparr> ds_variableMap := (ds_variableMap st)(nname i \<mapsto> varId),
                        ds_nodes := ds_nodes st @
                          [\<lparr> fn_id = varId, fn_label = nname i, fn_type = ''variable'',
                             fn_properties = [(''declarationType'', DF_getDeclarationType p),
                                              (''value'', DF_extractValue (child n ''init''))] \<rparr>] \<rparr>)
             else st)
      else if ntype n = ''Identifier'' then
        (case ds_variableMap st (nname n) of
           None \<Rightarrow> st
         | Some varId \<Rightarrow>
             if is_a ''AssignmentExpression'' (path_parent p) then
               (let assignmentId = ''assign_'' @ decimal (now (ds_calls st)) @ ''_'' @
                                   random (ds_calls st)
                in st \<lparr> ds_nodes := ds_nodes st @ [mkNode assignmentId ''Assignment'' ''process''],
                        ds_edges := ds_edges st @ [mkEdge varId assignmentId ''data''],
                        ds_calls := ds_calls st + 1 \<rparr>)
             else st)
      else st)"

definition generateDataFlow ::
  "(nat \<Rightarrow> nat) \<Rightarrow> (nat \<Rightarrow> string) \<Rightarrow> node \<Rightarrow> string \<Rightarrow> error + FlowDiagram" where
  "generateDataFlow now random ast filePath =
     (case traverse ast of
        Inl e \<Rightarrow> Inl e
      | Inr ps \<Rightarrow>
          (let st = fold (df_visit now random) ps
                      \<lparr> ds_nodes = [], ds_edges = [], ds_variableMap = Map.empty, ds_calls = 0 \<rparr>
           in Inr \<lparr> fd_nodes = ds_nodes st, fd_edges = ds_edges st, fd_type = ''data_flow'',
                    fd_title = ''Data Flow - '' @ filePath \<rparr>))"

subsection \<open>Component tree\<close>

record cstate =
  cs_nodes :: "FlowNode list"
  cs_edges :: "FlowEdge list"
  cs_componentMap :: "string \<rightharpoonup> string"

text \<open>\<open>name && name.length > 0 && name[0] === name[0]?.toUpperCase()\<close>\<close>

definition FD_isReactComponent :: "path \<Rightarrow> bool" where
  "FD_isReactComponent p =
     (let name = FD_getFunctionName p
      in name \<noteq> [] \<and> hd name = toUpperCase (hd name))"

definition FD_isReactClassComponent :: "path \<Rightarrow> bool" where
  "FD_isReactClassComponent p =
     (let n = fst p in
      ntype n = ''ClassDeclaration'' \<and>
      (case child n ''superClass'' of
         None \<Rightarrow> False
       | Some sc \<Rightarrow>
           ntype sc = ''MemberExpression'' \<and>
           (case child sc ''object'' of None \<Rightarrow> False
            | Some ob \<Rightarrow> ntype ob = ''Identifier'' \<and> nname ob = ''React'') \<and>
           (case child sc ''property'' of None \<Rightarrow> False
            | Some pr \<Rightarrow> ntype pr = ''Identifier'' \<and> nname pr = ''Component'')))"

text \<open>\<open>addComponentNode\<close> returns the new id together with the updated state.\<close>

definition addComponentNode :: "path \<Rightarrow> cstate \<Rightarrow> string \<times> cstate" where
  "addComponentNode p st =
     (let name = FD_getFunctionName p;
          componentId = ''comp_'' @ name
      in (componentId,
          st \<lparr> cs_nodes := cs_nodes st @
                  [\<lparr> fn_id = componentId, fn_label = name, fn_type = ''component'',
                     fn_properties =
                       [(''isFunctional'', JBool (ntype (fst p) = ''FunctionDeclaration'' \<or>
                                                  ntype (fst p) = ''ArrowFunctionExpression'')),
                        (''isClass'', JBool (ntype (fst p) = ''ClassDeclaration''))] \<rparr>],
               cs_componentMap := (cs_componentMap st)(name \<mapsto> componentId) \<rparr>))"

text \<open>
  The visitor of \<open>analyzeComponentChildren\<close> for one \<open>JSXElement\<close> (an element always has an
  opening element). The test \<open>childName[0] === childName[0]?.toUpperCase()\<close> also holds for
  an empty name, where both sides are undefined.
\<close>

definition jsx_visit :: "string \<Rightarrow> path \<Rightarrow> cstate \<Rightarrow> cstate" where
  "jsx_visit componentId jp st =
     (if ntype (fst jp) = ''JSXElement'' then
        (case child (fst jp) ''openingElement'' of
           None \<Rightarrow> st
         | Some element \<Rightarrow>
             (case child element ''name'' of
                None \<Rightarrow> st
              | Some nm \<Rightarrow>
                  if ntype nm = ''JSXIdentifier'' then
                    (let childName = nname nm in
                     if childName = [] \<or> hd childName = toUpperCase (hd childName) then
                       (case cs_componentMap st childName of
                          Some childId \<Rightarrow>
                            st \<lparr> cs_edges := cs_edges st @ [mkEdge componentId childId ''dependency''] \<rparr>
                        | None \<Rightarrow>
                            (let childId = ''comp_'' @ childName
                             in st \<lparr> cs_nodes := cs_nodes st @ [mkNode childId childName ''component''],
                                     cs_componentMap := (cs_componentMap st)(childName \<mapsto> childId),
                                     cs_edges := cs_edges st @
                                       [mkEdge componentId childId ''dependency''] \<rparr>))
                     else st)
                  else st))
      else st)"

text \<open>
  \<open>analyzeComponentChildren\<close> starts a second traversal at the component's own node,
  \<open>traverse(path.node, ...)\<close>, without a scope.
\<close>

definition analyzeComponentChildren :: "path \<Rightarrow> string \<Rightarrow> cstate \<Rightarrow> error + cstate" where
  "analyzeComponentChildren p componentId st =
     (case traverse (fst p) of
        Inl e \<Rightarrow> Inl e
      | Inr ps \<Rightarrow> Inr (fold (jsx_visit componentId) ps st))"

definition ct_visit :: "path \<Rightarrow> cstate \<Rightarrow> error + cstate" where
  "ct_visit p st =
     (if (ntype (fst p) = ''FunctionDeclaration'' \<or> ntype (fst p) = ''ArrowFunctionExpression'') then
        (if FD_isReactComponent p then
           (let r = addComponentNode p st in analyzeComponentChildren p (fst r) (snd r))
         else Inr st)
      else if ntype (fst p) = ''ClassDeclaration'' then
        (if FD_isReactClassComponent p then
           (let r = addComponentNode p st in analyzeComponentChildren p (fst r) (snd r))
         else Inr st)
      else Inr st)"

text \<open>Visiting in order until a visitor raises.\<close>

fun fold_err :: "('a \<Rightarrow> 's \<Rightarrow> error + 's) \<Rightarrow> 'a list \<Rightarrow> 's \<Rightarrow> error + 's" where
  "fold_err f [] st = Inr st"
| "fold_err f (x # xs) st = (case f x st of Inl e \<Rightarrow> Inl e | Inr st' \<Rightarrow> fold_err f xs st')"

definition generateComponentTree :: "node \<Rightarrow> string \<Rightarrow> error + FlowDiagram" where
  "generateComponentTree ast filePath =
     (case traverse ast of
        Inl e \<Rightarrow> Inl e
      | Inr ps \<Rightarrow>
          (case fold_err ct_visit ps \<lparr> cs_nodes = [], cs_edges = [], cs_componentMap = Map.empty \<rparr> of
             Inl e \<Rightarrow> Inl e
           | Inr st \<Rightarrow>
               Inr \<lparr> fd_nodes = cs_nodes st, fd_edges = cs_edges st, fd_type = ''component_tree'',
                      fd_title = ''Component Tree - '' @ filePath \<rparr>))"

subsection \<open>Dependency graph\<close>

text \<open>
  \<open>generateDependencyGraph\<close> takes a project model of any shape and reads its \<open>files\<close> and
  \<open>dependencies\<close>, either of which may be missing, as may the \<open>usedIn\<close> list of a dependency.
\<close>

record DGFile =
  dgf_path :: string
  dgf_name :: string
  dgf_type :: jsval
  dgf_size :: jsval

record DGDependency =
  dgd_name :: string
  dgd_version :: jsval
  dgd_type :: jsval
  dgd_usedIn :: "string list option"

record DGProject =
  dgp_files :: "DGFile list option"
  dgp_dependencies :: "DGDependency list option"

text \<open>\<open>path.replace(/[^a-zA-Z0-9]/g, '_')\<close>\<close>

definition isAlnum :: "char \<Rightarrow> bool" where
  "isAlnum c =
     (let k = (of_char c :: nat)
      in (97 \<le> k \<and> k \<le> 122) \<or> (65 \<le> k \<and> k \<le> 90) \<or> (48 \<le> k \<and> k \<le> 57))"

definition sanitize :: "string \<Rightarrow> string" where
  "sanitize p = map (\<lambda>c. if isAlnum c then c else CHR ''_'') p"

definition dg_fileNode :: "DGFile \<Rightarrow> FlowNode" where
  "dg_fileNode f =
     \<lparr> fn_id = ''file_'' @ sanitize (dgf_path f), fn_label = dgf_name f, fn_type = ''component'',
       fn_properties = [(''fileType'', dgf_type f), (''size'', dgf_size f)] \<rparr>"

definition dg_depNode :: "DGDependency \<Rightarrow> FlowNode" where
  "dg_depNode d =
     \<lparr> fn_id = ''dep_'' @ dgd_name d, fn_label = dgd_name d, fn_type = ''data'',
       fn_properties = [(''version'', dgd_version d), (''type'', dgd_type d)] \<rparr>"

definition dg_depEdges :: "DGDependency \<Rightarrow> FlowEdge list" where
  "dg_depEdges d =
     map (\<lambda>filePath. mkEdge (''dep_'' @ dgd_name d) (''file_'' @ sanitize filePath) ''dependency'')
       (case dgd_usedIn d of None \<Rightarrow> [] | Some ps \<Rightarrow> ps)"

definition generateDependencyGraph :: "DGProject \<Rightarrow> FlowDiagram" where
  "generateDependencyGraph projectInfo =
     (let files = (case dgp_files projectInfo of None \<Rightarrow> [] | Some fs \<Rightarrow> fs);
          deps = (case dgp_dependencies projectInfo of None \<Rightarrow> [] | Some ds \<Rightarrow> ds)
      in \<lparr> fd_nodes = map dg_fileNode files @ map dg_depNode deps,
            fd_edges = concat (map dg_depEdges deps),
            fd_type = ''dependency_graph'', fd_title = ''Dependency Graph'' \<rparr>)"

subsection \<open>Graph properties\<close>

definition node_ids :: "FlowDiagram \<Rightarrow> string set" where
  "node_ids g = set (map fn_id (fd_nodes g))"

definition edges_closed :: "FlowDiagram \<Rightarrow> bool" where
  "edges_closed g = list_all (\<lambda>e. fe_from e \<in> node_ids g \<and> fe_to e \<in> node_ids g) (fd_edges g)"

text \<open>Reachability along the emitted edges.\<close>

inductive reach :: "FlowEdge list \<Rightarrow> string \<Rightarrow> string \<Rightarrow> bool" for es :: "FlowEdge list" where
  reach_refl: "reach es a a"
| reach_step: "reach es a b \<Longrightarrow> e \<in> set es \<Longrightarrow> fe_from e = b \<Longrightarrow> fe_to e = c \<Longrightarrow> reach es a c"

definition count_type :: "string \<Rightarrow> FlowDiagram \<Rightarrow> nat" where
  "count_type ty g = length (filter (\<lambda>n. fn_type n = ty) (fd_nodes g))"

text \<open>The paths of the listed files and the paths the dependencies say they are used in.\<close>

definition dg_paths :: "DGProject \<Rightarrow> string set" where
  "dg_paths projectInfo = dgf_path ` set (case dgp_files projectInfo of None \<Rightarrow> [] | Some fs \<Rightarrow> fs)"

definition dg_usedIn :: "DGProject \<Rightarrow> string set" where
  "dg_usedIn projectInfo =
     (\<Union>d \<in> set (case dgp_dependencies projectInfo of None \<Rightarrow> [] | Some ds \<Rightarrow> ds).
        set (case dgd_usedIn d of None \<Rightarrow> [] | Some ps \<Rightarrow> ps))"

section \<open>ComponentAnalyzer: state bindings\<close>

text \<open>
  The file holds two versions of the analyser. The later one, which the repository's
  component tests describe, walks the component with its own \<open>traverseAST\<close>: it calls the
  visitor of the node itself first and then goes, in the order of the keys, into every
  property that is an object or an array of objects, \<open>type\<close>, \<open>loc\<close> and \<open>range\<close> apart. The
  visitor of \<open>analyzeState\<close> reads \<open>path.node\<close> only, so a walk that returns is modelled by
  the list of the nodes it visits. The objects of a parsed tree that are no nodes (\<open>extra\<close>,
  comments) have no type the visitor is registered for and no node below them.
\<close>

function traverseAST_nodes :: "node \<Rightarrow> node list"
  and traverseAST_kids :: "(string \<times> node) list \<Rightarrow> node list" where
  "traverseAST_nodes n = n # traverseAST_kids (nkids n)"
| "traverseAST_kids [] = []"
| "traverseAST_kids (kc # kcs) = traverseAST_nodes (snd kc) @ traverseAST_kids kcs"
  by pat_completeness auto
termination
proof (relation "measure (\<lambda>x. case x of
    Inl n \<Rightarrow> 2 * size n
  | Inr kcs \<Rightarrow> 2 * size_list (size_prod (\<lambda>_. 0) size) kcs + 1)", goal_cases)
  case 1
  show ?case by simp
next
  case (2 n)
  show ?case using size_nkids [of n] by simp
next
  case (3 kc kcs)
  show ?case by (cases kc) simp
next
  case (4 kc kcs)
  show ?case by simp
qed

text \<open>
  A path stored on a node is an object like any other to this walk, which goes into it. The
  path leads back to the node it belongs to and to that node's parent, so the walk comes to
  the same node again and again until the call stack is exhausted. The visitor of
  \<open>analyzeState\<close> raises nothing on the way: the path object carries the type of its node but
  no \<open>init\<close>. So the walk returns if and only if no node it reaches holds a path.
\<close>

definition holds_path :: "node \<Rightarrow> bool" where
  "holds_path n =
     list_ex (\<lambda>kv. snd kv = JPath \<and> fst kv \<notin> set [''type'', ''loc'', ''range'']) (nattrs n)"

definition traverseAST :: "node \<Rightarrow> error + node list" where
  "traverseAST n =
     (if list_ex holds_path (traverseAST_nodes n)
      then Inl (RangeError ''Maximum call stack size exceeded'')
      else Inr (traverseAST_nodes n))"

text \<open>An initial value is a literal's value, an empty array, an empty object or undefined.\<close>

datatype defval = DVal jsval | DEmptyArray | DEmptyObject

record StateDefinition =
  sd_name :: string
  sd_type :: string
  sd_initialValue :: defval
  sd_isPrivate :: bool
  sd_isReadonly :: bool
  sd_location :: "nat \<times> nat"

text \<open>The \<open>updaters\<close> and \<open>subscribers\<close> of a component state are always empty and left out.\<close>

record ComponentState =
  cst_definitions :: "StateDefinition list"
  cst_types :: "string \<rightharpoonup> string"
  cst_initialValues :: "string \<rightharpoonup> defval"

definition inferValueType :: "node option \<Rightarrow> string" where
  "inferValueType v =
     (if is_a ''StringLiteral'' v then ''string''
      else if is_a ''NumericLiteral'' v then ''number''
      else if is_a ''BooleanLiteral'' v then ''boolean''
      else if is_a ''ArrayExpression'' v then ''array''
      else if is_a ''ObjectExpression'' v then ''object''
      else if is_a ''FunctionExpression'' v \<or> is_a ''ArrowFunctionExpression'' v then ''function''
      else ''any'')"

definition extractDefaultValue :: "node option \<Rightarrow> defval" where
  "extractDefaultValue v =
     (if isLiteral v then DVal (case v of None \<Rightarrow> JUndef | Some n \<Rightarrow> attr n ''value'')
      else if is_a ''ArrayExpression'' v then DEmptyArray
      else if is_a ''ObjectExpression'' v then DEmptyObject
      else DVal JUndef)"

text \<open>The name of the state initializer the analyser looks for.\<close>

definition stateInit :: string where
  "stateInit = ''useState''"

text \<open>\<open>declarator.init.arguments[0]\<close>\<close>

definition first_argument :: "node \<Rightarrow> node option" where
  "first_argument call = (case childs call ''arguments'' of [] \<Rightarrow> None | a # _ \<Rightarrow> Some a)"

definition state_visit :: "node \<Rightarrow> ComponentState \<Rightarrow> ComponentState" where
  "state_visit declarator st =
     (if ntype declarator = ''VariableDeclarator'' then
        (case child declarator ''init'' of
           None \<Rightarrow> st
         | Some init \<Rightarrow>
             if ntype init = ''CallExpression'' \<and>
                is_a ''Identifier'' (child init ''callee'') \<and>
                (case child init ''callee'' of None \<Rightarrow> False | Some c \<Rightarrow> nname c = stateInit) \<and>
                is_a ''ArrayPattern'' (child declarator ''id'') \<and>
                (case child declarator ''id'' of None \<Rightarrow> False
                 | Some pat \<Rightarrow> length (childs pat ''elements'') > 0)
             then
               (case child declarator ''id'' of
                  None \<Rightarrow> st
                | Some pat \<Rightarrow>
                    (let stateName = hd (childs pat ''elements'') in
                     if ntype stateName = ''Identifier'' then
                       (let initialState = first_argument init in
                        st \<lparr> cst_definitions := cst_definitions st @
                                [\<lparr> sd_name = nname stateName,
                                   sd_type = inferValueType initialState,
                                   sd_initialValue = extractDefaultValue initialState,
                                   sd_isPrivate = False,
                                   sd_isReadonly = False,
                                   sd_location = (line_of declarator, column_of declarator) \<rparr>],
                              cst_types := (cst_types st)(nname stateName \<mapsto> inferValueType initialState),
                              cst_initialValues := (cst_initialValues st)
                                (nname stateName \<mapsto> extractDefaultValue initialState) \<rparr>)
                     else st))
             else st)
      else st)"

definition analyzeState :: "node \<Rightarrow> error + ComponentState" where
  "analyzeState n =
     (case traverseAST n of
        Inl e \<Rightarrow> Inl e
      | Inr ns \<Rightarrow>
          Inr (fold state_visit ns
                 \<lparr> cst_definitions = [], cst_types = Map.empty, cst_initialValues = Map.empty \<rparr>))"

text \<open>
  The earlier version searches for calls of the state initializer in statement position and
  asks \<open>extractStateNameFromCall\<close> for the name, which it never gives ("simplified
  implementation, returns undefined").
\<close>

fun findUseStateCalls_v1 :: "node \<Rightarrow> node list" where
  "findUseStateCalls_v1 n =
     (if ntype n = ''CallExpression'' \<and> is_a ''Identifier'' (child n ''callee'') \<and>
         (case child n ''callee'' of None \<Rightarrow> False | Some c \<Rightarrow> nname c = stateInit)
      then [n] else []) @
     (if ntype n = ''BlockStatement'' then
        concat (map findUseStateCalls_v1 (childs n ''body''))
      else if ntype n = ''IfStatement'' then
        (case child n ''consequent'' of None \<Rightarrow> [] | Some c \<Rightarrow> findUseStateCalls_v1 c) @
        (case child n ''alternate'' of None \<Rightarrow> [] | Some a \<Rightarrow> findUseStateCalls_v1 a)
      else if isLoop3 (ntype n) then
        (case child n ''body'' of None \<Rightarrow> [] | Some b \<Rightarrow> findUseStateCalls_v1 b)
      else if ntype n = ''ReturnStatement'' then
        (case child n ''argument'' of None \<Rightarrow> [] | Some a \<Rightarrow> findUseStateCalls_v1 a)
      else if ntype n = ''ConditionalExpression'' then
        (case child n ''consequent'' of None \<Rightarrow> [] | Some c \<Rightarrow> findUseStateCalls_v1 c) @
        (case child n ''alternate'' of None \<Rightarrow> [] | Some a \<Rightarrow> findUseStateCalls_v1 a)
      else [])"

declare findUseStateCalls_v1.simps [simp del]

definition extractStateNameFromCall_v1 :: "node \<Rightarrow> string option" where
  "extractStateNameFromCall_v1 callNode = None"

definition state_visit_v1 :: "node \<Rightarrow> ComponentState \<Rightarrow> ComponentState" where
  "state_visit_v1 callNode st =
     (case extractStateNameFromCall_v1 callNode of
        None \<Rightarrow> st
      | Some stateName \<Rightarrow>
          (let initialState = first_argument callNode in
           st \<lparr> cst_definitions := cst_definitions st @
                   [\<lparr> sd_name = stateName,
                      sd_type = inferValueType initialState,
                      sd_initialValue = extractDefaultValue initialState,
                      sd_isPrivate = False,
                      sd_isReadonly = False,
                      sd_location = (line_of callNode, column_of callNode) \<rparr>],
                 cst_types := (cst_types st)(stateName \<mapsto> inferValueType initialState),
                 cst_initialValues := (cst_initialValues st)
                   (stateName \<mapsto> extractDefaultValue initialState) \<rparr>))"

definition analyzeState_v1 :: "node \<Rightarrow> ComponentState" where
  "analyzeState_v1 n =
     fold state_visit_v1 (findUseStateCalls_v1 n)
       \<lparr> cst_definitions = [], cst_types = Map.empty, cst_initialValues = Map.empty \<rparr>"

section \<open>FrontendCodeAnalyzer\<close>

text \<open>
  The analyser reads the file system below the project path. That part of the file system
  is a tree: a file with its content, or a directory with its entries in the order
  \<open>readdirSync\<close> lists them. \<open>None\<close> stands for a path at which nothing exists.
\<close>

datatype fsnode = FsFile string | FsDir "(string \<times> fsnode) list"

text \<open>
  What \<open>JSON.parse\<close> makes of a package manifest, as far as the analyser looks at it.
\<close>

record PackageJson =
  pk_name :: jsval
  pk_version :: jsval
  pk_description :: jsval
  pk_dependencies :: "(string \<times> jsval) list option"
  pk_devDependencies :: "(string \<times> jsval) list option"

text \<open>
  Library functions and the two analysers that are not modelled here are parameters: the
  \<open>path\<close> module, \<open>JSON.parse\<close> on a manifest, the Babel \<open>parse\<close>, and the function and
  component analysers, each of which returns its descriptors or raises.
\<close>

record ('f, 'c) env =
  path_basename :: "string \<Rightarrow> string"
  path_join :: "string \<Rightarrow> string \<Rightarrow> string"
  path_extname :: "string \<Rightarrow> string"
  JSON_parse :: "string \<Rightarrow> error + PackageJson"
  parse :: "string \<Rightarrow> error + node"
  analyzeFunctions :: "node \<Rightarrow> string \<Rightarrow> error + 'f list"
  analyzeComponents :: "node \<Rightarrow> string \<Rightarrow> error + 'c list"

text \<open>What \<open>analyzeImportsExports\<close> records of an import and of an export.\<close>

record ImportInfo =
  im_module :: jsval
  im_variables :: "jsval list"
  im_type :: string
  im_path :: jsval
  im_line :: nat
  im_column :: nat

record ExportInfo =
  ex_name :: jsval
  ex_type :: string
  ex_isReExport :: bool
  ex_fromModule :: jsval
  ex_line :: nat
  ex_column :: nat

text \<open>
  Of a file model the path, size, line count, the three descriptor lists and the imports
  and exports are kept; the other fields (type, modification time) come from code that
  cannot raise.
\<close>

record ('f, 'c) FileInfo =
  fi_path :: string
  fi_size :: nat
  fi_lines :: nat
  fi_variables :: "VariableInfo list"
  fi_functions :: "'f list"
  fi_components :: "'c list"
  fi_imports :: "ImportInfo list"
  fi_exports :: "ExportInfo list"

record DependencyInfo =
  dep_name :: string
  dep_version :: jsval
  dep_type :: string
  dep_source :: string
  dep_installed :: bool

text \<open>Time stamps and statistics of a project model are left out.\<close>

record ('f, 'c) ProjectInfo =
  pi_name :: jsval
  pi_framework :: string
  pi_version :: jsval
  pi_description :: jsval
  pi_files :: "('f, 'c) FileInfo list"
  pi_dependencies :: "DependencyInfo list"

definition createDefaultProjectInfo :: "('f, 'c) env \<Rightarrow> string \<Rightarrow> ('f, 'c) ProjectInfo" where
  "createDefaultProjectInfo e projectPath =
     \<lparr> pi_name = JStr (path_basename e projectPath), pi_framework = ''unknown'',
       pi_version = JUndef, pi_description = JUndef, pi_files = [], pi_dependencies = [] \<rparr>"

text \<open>\<open>fs.readFileSync(path, 'utf-8')\<close> on what the path resolves to.\<close>

definition readFileSync :: "string \<Rightarrow> fsnode option \<Rightarrow> error + string" where
  "readFileSync p entry =
     (case entry of
        None \<Rightarrow> Inl (FsError ''ENOENT'' p)
      | Some (FsDir items) \<Rightarrow> Inl (FsError ''EISDIR'' p)
      | Some (FsFile content) \<Rightarrow> Inr content)"

text \<open>The entry \<open>package.json\<close> of the project directory, if the project path is a directory.\<close>

definition packageJsonEntry :: "fsnode \<Rightarrow> fsnode option" where
  "packageJsonEntry root =
     (case root of FsFile content \<Rightarrow> None | FsDir items \<Rightarrow> map_of items ''package.json'')"

definition readPackageJson :: "('f, 'c) env \<Rightarrow> string \<Rightarrow> fsnode option \<Rightarrow> error + PackageJson" where
  "readPackageJson e p entry =
     (case readFileSync p entry of Inl err \<Rightarrow> Inl err | Inr content \<Rightarrow> JSON_parse e content)"

text \<open>\<open>{ ...packageJson.dependencies, ...packageJson.devDependencies }\<close> and a lookup in it.\<close>

definition merged_dependency :: "PackageJson \<Rightarrow> string \<Rightarrow> jsval" where
  "merged_dependency pkg k =
     (case map_of (case pk_devDependencies pkg of None \<Rightarrow> [] | Some ds \<Rightarrow> ds) k of
        Some v \<Rightarrow> v
      | None \<Rightarrow>
          (case map_of (case pk_dependencies pkg of None \<Rightarrow> [] | Some ds \<Rightarrow> ds) k of
             Some v \<Rightarrow> v | None \<Rightarrow> JUndef))"

definition detectFramework ::
  "('f, 'c) env \<Rightarrow> string \<Rightarrow> fsnode \<Rightarrow> ('f, 'c) ProjectInfo \<Rightarrow> ('f, 'c) ProjectInfo" where
  "detectFramework e projectPath root info =
     (let packageJsonPath = path_join e projectPath ''package.json'' in
      if packageJsonEntry root = None then info \<lparr> pi_framework := ''unknown'' \<rparr>
      else
        (case readPackageJson e packageJsonPath (packageJsonEntry root) of
           Inl err \<Rightarrow> info \<lparr> pi_framework := ''unknown'' \<rparr>
         | Inr pkg \<Rightarrow>
             info \<lparr> pi_framework :=
                      (if truthy (merged_dependency pkg ''react'') then ''react''
                       else if truthy (merged_dependency pkg ''vue'') then ''vue''
                       else if truthy (merged_dependency pkg ''@angular/core'') then ''angular''
                       else ''vanilla''),
                    pi_name := (if truthy (pk_name pkg) then pk_name pkg
                                else JStr (path_basename e projectPath)),
                    pi_version := pk_version pkg,
                    pi_description := pk_description pkg \<rparr>))"

definition mkDependency :: "string \<Rightarrow> string \<times> jsval \<Rightarrow> DependencyInfo" where
  "mkDependency ty nv =
     \<lparr> dep_name = fst nv, dep_version = snd nv, dep_type = ty, dep_source = ''npm'',
       dep_installed = True \<rparr>"

definition analyzeDependencies ::
  "('f, 'c) env \<Rightarrow> string \<Rightarrow> fsnode \<Rightarrow> ('f, 'c) ProjectInfo \<Rightarrow> ('f, 'c) ProjectInfo" where
  "analyzeDependencies e projectPath root info =
     (let packageJsonPath = path_join e projectPath ''package.json'' in
      if packageJsonEntry root = None then info
      else
        (case readPackageJson e packageJsonPath (packageJsonEntry root) of
           Inl err \<Rightarrow> info
         | Inr pkg \<Rightarrow>
             info \<lparr> pi_dependencies :=
                      map (mkDependency ''production'')
                        (case pk_dependencies pkg of None \<Rightarrow> [] | Some ds \<Rightarrow> ds) @
                      map (mkDependency ''development'')
                        (case pk_devDependencies pkg of None \<Rightarrow> [] | Some ds \<Rightarrow> ds) \<rparr>))"

text \<open>
  \<open>getSourceFiles\<close>: \<open>scanDirectory\<close> lists a directory and recurses; a path that cannot be
  listed (here: a file) raises inside its \<open>try\<close> and contributes nothing. The model returns
  each source path with the file found there.
\<close>

lemma size_fsitems: "size_list (size_prod (\<lambda>_. 0) size) items < size (FsDir items)"
  by simp

function scanDirectory :: "('f, 'c) env \<Rightarrow> string \<Rightarrow> fsnode \<Rightarrow> (string \<times> fsnode) list"
  and scanItems :: "('f, 'c) env \<Rightarrow> string \<Rightarrow> (string \<times> fsnode) list \<Rightarrow> (string \<times> fsnode) list" where
  "scanDirectory e dir (FsFile content) = []"
| "scanDirectory e dir (FsDir items) = scanItems e dir items"
| "scanItems e dir [] = []"
| "scanItems e dir (it # items) =
     (let item = fst it; fullPath = path_join e dir item in
      (case snd it of
         FsDir sub \<Rightarrow>
           if item \<notin> set [''node_modules'', ''.git'', ''dist'', ''build'', ''.next'']
           then scanDirectory e fullPath (snd it) else []
       | FsFile content \<Rightarrow>
           if path_extname e item \<in> set [''.js'', ''.jsx'', ''.ts'', ''.tsx'', ''.vue'']
           then [(fullPath, snd it)] else [])
      @ scanItems e dir items)"
  by pat_completeness auto
termination
proof (relation "measure (\<lambda>x. case x of
    Inl (e, dir, n) \<Rightarrow> 2 * size n
  | Inr (e, dir, items) \<Rightarrow> 2 * size_list (size_prod (\<lambda>_. 0) size) items + 1)", goal_cases)
  case 1
  show ?case by simp
next
  case (2 e dir items)
  show ?case by simp
next
  case (3 e dir it items x xa xb)
  then show ?case by (cases it) simp
next
  case (4 e dir it items x xa)
  show ?case by simp
qed

definition getSourceFiles :: "('f, 'c) env \<Rightarrow> string \<Rightarrow> fsnode \<Rightarrow> (string \<times> fsnode) list" where
  "getSourceFiles e projectPath root = scanDirectory e projectPath root"

text \<open>\<open>content.split('\n').length\<close>\<close>

definition count_lines :: "string \<Rightarrow> nat" where
  "count_lines content = 1 + length (filter (\<lambda>c. c = CHR 0x0A) content)"

text \<open>
  \<open>analyzeImportsExports\<close> traverses the tree once more. Reading \<open>x.name\<close> raises a
  \<open>TypeError\<close> when \<open>x\<close> is missing: an export specifier that is no \<open>ExportSpecifier\<close> (the one
  of \<^verbatim>\<open>export * as ns from 'm'\<close>) has no \<open>local\<close>.
\<close>

definition name_of :: "string \<Rightarrow> node \<Rightarrow> error + jsval" where
  "name_of key spec =
     (case child spec key of
        None \<Rightarrow> Inl (TypeError ''name'')
      | Some x \<Rightarrow> Inr (attr x ''name''))"

definition import_variable :: "node \<Rightarrow> error + jsval" where
  "import_variable spec =
     (if ntype spec = ''ImportDefaultSpecifier'' then name_of ''local'' spec
      else if ntype spec = ''ImportSpecifier'' then name_of ''imported'' spec
      else name_of ''local'' spec)"

fun map_err :: "('a \<Rightarrow> error + 'b) \<Rightarrow> 'a list \<Rightarrow> error + 'b list" where
  "map_err f [] = Inr []"
| "map_err f (x # xs) =
     (case f x of
        Inl e \<Rightarrow> Inl e
      | Inr y \<Rightarrow> (case map_err f xs of Inl e \<Rightarrow> Inl e | Inr ys \<Rightarrow> Inr (y # ys)))"

definition source_value :: "node \<Rightarrow> error + jsval" where
  "source_value n =
     (case child n ''source'' of
        None \<Rightarrow> Inl (TypeError ''value'')
      | Some src \<Rightarrow> Inr (attr src ''value''))"

definition export_of :: "node \<Rightarrow> node \<Rightarrow> error + ExportInfo" where
  "export_of n spec =
     (case (if ntype spec = ''ExportSpecifier'' then name_of ''exported'' spec
            else name_of ''local'' spec) of
        Inl e \<Rightarrow> Inl e
      | Inr name \<Rightarrow>
          Inr \<lparr> ex_name = name, ex_type = ''named'',
                ex_isReExport = (child n ''source'' \<noteq> None),
                ex_fromModule = (case child n ''source'' of None \<Rightarrow> JUndef
                                 | Some src \<Rightarrow> attr src ''value''),
                ex_line = line_of n, ex_column = column_of n \<rparr>)"

type_synonym iestate = "ImportInfo list \<times> ExportInfo list"

definition ie_visit :: "path \<Rightarrow> iestate \<Rightarrow> error + iestate" where
  "ie_visit p st =
     (let n = fst p in
      if ntype n = ''ImportDeclaration'' then
        (case source_value n of
           Inl e \<Rightarrow> Inl e
         | Inr m \<Rightarrow>
             (case map_err import_variable (childs n ''specifiers'') of
                Inl e \<Rightarrow> Inl e
              | Inr vs \<Rightarrow>
                  Inr (fst st @
                         [\<lparr> im_module = m, im_variables = vs,
                            im_type = (if childs n ''specifiers'' = [] then ''side-effect''
                                       else ''named''),
                            im_path = m, im_line = line_of n, im_column = column_of n \<rparr>],
                       snd st)))
      else if ntype n = ''ExportDefaultDeclaration'' then
        Inr (fst st,
             snd st @
               [\<lparr> ex_name = (case child n ''declaration'' of
                               None \<Rightarrow> JStr ''default''
                             | Some d \<Rightarrow> if ntype d = ''Identifier'' then attr d ''name''
                                         else JStr ''default''),
                  ex_type = ''default'', ex_isReExport = False, ex_fromModule = JUndef,
                  ex_line = line_of n, ex_column = column_of n \<rparr>])
      else if ntype n = ''ExportNamedDeclaration'' then
        (case map_err (export_of n) (childs n ''specifiers'') of
           Inl e \<Rightarrow> Inl e
         | Inr es \<Rightarrow> Inr (fst st, snd st @ es))
      else Inr st)"

definition analyzeImportsExports :: "node \<Rightarrow> error + iestate" where
  "analyzeImportsExports ast =
     (case traverse ast of
        Inl e \<Rightarrow> Inl e
      | Inr ps \<Rightarrow> fold_err ie_visit ps ([], []))"

text \<open>
  \<open>analyzeFile\<close> reads the file outside its \<open>try\<close>, so a read error leaves as it is; whatever
  the parser or an analyser raises inside the \<open>try\<close> is wrapped in a \<open>ParseError\<close> that names
  the file. The analysers that follow \<open>analyzeVariables\<close> receive the tree as it has left it.
\<close>

definition analyzeFile_try ::
  "('f, 'c) env \<Rightarrow> string \<Rightarrow> string \<Rightarrow> error + ('f, 'c) FileInfo" where
  "analyzeFile_try e filePath content =
     (case parse e content of
        Inl err \<Rightarrow> Inl err
      | Inr ast \<Rightarrow>
          (case analyzeVariables ast filePath of
             Inl err \<Rightarrow> Inl err
           | Inr vs \<Rightarrow>
               (case analyzeFunctions e (analyzeVariables_tree ast) filePath of
                  Inl err \<Rightarrow> Inl err
                | Inr fs \<Rightarrow>
                    (case analyzeComponents e (analyzeVariables_tree ast) filePath of
                       Inl err \<Rightarrow> Inl err
                     | Inr cs \<Rightarrow>
                         (case analyzeImportsExports (analyzeVariables_tree ast) of
                            Inl err \<Rightarrow> Inl err
                          | Inr ie \<Rightarrow>
                              Inr \<lparr> fi_path = filePath, fi_size = length content,
                                    fi_lines = count_lines content, fi_variables = vs,
                                    fi_functions = fs, fi_components = cs,
                                    fi_imports = fst ie, fi_exports = snd ie \<rparr>)))))"

definition analyzeFile ::
  "('f, 'c) env \<Rightarrow> string \<Rightarrow> fsnode option \<Rightarrow> error + ('f, 'c) FileInfo" where
  "analyzeFile e filePath entry =
     (case readFileSync filePath entry of
        Inl err \<Rightarrow> Inl err
      | Inr content \<Rightarrow>
          (case analyzeFile_try e filePath content of
             Inl err \<Rightarrow> Inl (ParseError filePath err)
           | Inr fileInfo \<Rightarrow> Inr fileInfo))"

text \<open>\<open>analyzeFiles\<close> keeps the files whose analysis returned and only warns about the others.\<close>

fun analyzeFiles_loop ::
  "('f, 'c) env \<Rightarrow> (string \<times> fsnode) list \<Rightarrow> ('f, 'c) FileInfo list" where
  "analyzeFiles_loop e [] = []"
| "analyzeFiles_loop e (sf # sfs) =
     (case analyzeFile e (fst sf) (Some (snd sf)) of
        Inl err \<Rightarrow> analyzeFiles_loop e sfs
      | Inr fileInfo \<Rightarrow> fileInfo # analyzeFiles_loop e sfs)"

definition analyzeFiles ::
  "('f, 'c) env \<Rightarrow> string \<Rightarrow> fsnode \<Rightarrow> ('f, 'c) ProjectInfo \<Rightarrow> ('f, 'c) ProjectInfo" where
  "analyzeFiles e projectPath root info =
     info \<lparr> pi_files := analyzeFiles_loop e (getSourceFiles e projectPath root) \<rparr>"

text \<open>
  \<open>analyzeProject\<close>: a project path at which nothing exists returns the default model
  ("return the default project information instead of raising"). Otherwise the steps run in
  order; each of them catches what it may raise, so the outer \<open>catch\<close> has nothing to do.
\<close>

definition analyzeProject ::
  "('f, 'c) env \<Rightarrow> string \<Rightarrow> fsnode option \<Rightarrow> error + ('f, 'c) ProjectInfo" where
  "analyzeProject e projectPath entry =
     (case entry of
        None \<Rightarrow> Inr (createDefaultProjectInfo e projectPath)
      | Some root \<Rightarrow>
          Inr (analyzeFiles e projectPath root
                (analyzeDependencies e projectPath root
                  (detectFramework e projectPath root (createDefaultProjectInfo e projectPath)))))"

section \<open>Example programs\<close>

text \<open>Constructors for the trees of the programs used below.\<close>

definition Identifier :: "string \<Rightarrow> nat \<times> nat \<Rightarrow> node" where
  "Identifier x lc = Node ''Identifier'' [(''name'', JStr x)] (Some lc) []"

definition StringLiteral :: "string \<Rightarrow> nat \<times> nat \<Rightarrow> node" where
  "StringLiteral v lc = Node ''StringLiteral'' [(''value'', JStr v)] (Some lc) []"

definition NumericLiteral :: "int \<Rightarrow> nat \<times> nat \<Rightarrow> node" where
  "NumericLiteral v lc = Node ''NumericLiteral'' [(''value'', JNum v)] (Some lc) []"

definition BinaryExpression :: "string \<Rightarrow> node \<Rightarrow> node \<Rightarrow> nat \<times> nat \<Rightarrow> node" where
  "BinaryExpression op l r lc =
     Node ''BinaryExpression'' [(''operator'', JStr op)] (Some lc) [(''left'', l), (''right'', r)]"

definition ReturnStatement :: "node \<Rightarrow> nat \<times> nat \<Rightarrow> node" where
  "ReturnStatement a lc = Node ''ReturnStatement'' [] (Some lc) [(''argument'', a)]"

definition BlockStatement :: "node list \<Rightarrow> nat \<times> nat \<Rightarrow> node" where
  "BlockStatement ss lc = Node ''BlockStatement'' [] (Some lc) (map (Pair ''body'') ss)"

definition IfStatement :: "node \<Rightarrow> node \<Rightarrow> node option \<Rightarrow> nat \<times> nat \<Rightarrow> node" where
  "IfStatement t c a lc =
     Node ''IfStatement'' [] (Some lc)
       ([(''test'', t), (''consequent'', c)] @
        (case a of None \<Rightarrow> [] | Some e \<Rightarrow> [(''alternate'', e)]))"

definition FunctionDeclaration :: "string \<Rightarrow> node list \<Rightarrow> node \<Rightarrow> nat \<times> nat \<Rightarrow> node" where
  "FunctionDeclaration f ps b lc =
     Node ''FunctionDeclaration'' [] (Some lc)
       ([(''id'', Identifier f (fst lc, snd lc + 9))] @ map (Pair ''params'') ps @ [(''body'', b)])"

definition VariableDeclaration :: "string \<Rightarrow> node list \<Rightarrow> nat \<times> nat \<Rightarrow> node" where
  "VariableDeclaration kind ds lc =
     Node ''VariableDeclaration'' [(''kind'', JStr kind)] (Some lc) (map (Pair ''declarations'') ds)"

definition VariableDeclarator :: "node \<Rightarrow> node option \<Rightarrow> nat \<times> nat \<Rightarrow> node" where
  "VariableDeclarator i init lc =
     Node ''VariableDeclarator'' [] (Some lc)
       ([(''id'', i)] @ (case init of None \<Rightarrow> [] | Some e \<Rightarrow> [(''init'', e)]))"

definition ExpressionStatement :: "node \<Rightarrow> nat \<times> nat \<Rightarrow> node" where
  "ExpressionStatement e lc = Node ''ExpressionStatement'' [] (Some lc) [(''expression'', e)]"

definition AssignmentExpression :: "node \<Rightarrow> node \<Rightarrow> nat \<times> nat \<Rightarrow> node" where
  "AssignmentExpression l r lc =
     Node ''AssignmentExpression'' [(''operator'', JStr ''='')] (Some lc)
       [(''left'', l), (''right'', r)]"

definition Program :: "node list \<Rightarrow> node" where
  "Program ss = Node ''Program'' [] (Some (1, 0)) (map (Pair ''body'') ss)"

definition File :: "node list \<Rightarrow> node" where
  "File ss = Node ''File'' [] (Some (1, 0)) [(''program'', Program ss)]"

text \<open>
  The function of the complexity scenario:
  \<^verbatim>\<open>function f(x){ if (x>0) { if (x>10) return "a"; else return "b"; }
                 else if (x<0) return "c"; else return "d"; }\<close>
\<close>

definition scenario_body :: node where
  "scenario_body =
       (BlockStatement
          [IfStatement (BinaryExpression ''>'' (Identifier ''x'' (1, 19)) (NumericLiteral 0 (1, 21)) (1, 19))
             (BlockStatement
                [IfStatement
                   (BinaryExpression ''>'' (Identifier ''x'' (1, 30)) (NumericLiteral 10 (1, 32)) (1, 30))
                   (ReturnStatement (StringLiteral ''a'' (1, 43)) (1, 36))
                   (Some (ReturnStatement (StringLiteral ''b'' (1, 60)) (1, 53)))
                   (1, 26)]
                (1, 24))
             (Some (IfStatement
                (BinaryExpression ''<'' (Identifier ''x'' (2, 26)) (NumericLiteral 0 (2, 28)) (2, 26))
                (ReturnStatement (StringLiteral ''c'' (2, 38)) (2, 31))
                (Some (ReturnStatement (StringLiteral ''d'' (2, 55)) (2, 48)))
                (2, 22)))
             (1, 15)]
          (1, 13))"

definition scenario_f :: node where
  "scenario_f = FunctionDeclaration ''f'' [Identifier ''x'' (1, 11)] scenario_body (1, 0)"

text \<open>The two-statement program \<^verbatim>\<open>let a = 1; a = 2;\<close>.\<close>

definition decl_a :: node where
  "decl_a = VariableDeclarator (Identifier ''a'' (1, 4)) (Some (NumericLiteral 1 (1, 8))) (1, 4)"

definition stmt_let_a :: node where
  "stmt_let_a = VariableDeclaration ''let'' [decl_a] (1, 0)"

definition stmt_set_a :: node where
  "stmt_set_a =
     ExpressionStatement
       (AssignmentExpression (Identifier ''a'' (1, 11)) (NumericLiteral 2 (1, 15)) (1, 11)) (1, 11)"

definition prog_assign :: node where
  "prog_assign = File [stmt_let_a, stmt_set_a]"

text \<open>
  The program of the repository's scope test:
  \<^verbatim>\<open>const globalVar = "global";
function testFunction() {
  const functionVar = "function";
  class TestClass {
    constructor() {
      const constructorVar = "constructor";
    }
  }
}\<close>
\<close>

definition decl_constructorVar :: node where
  "decl_constructorVar =
     VariableDeclarator (Identifier ''constructorVar'' (6, 12))
       (Some (StringLiteral ''constructor'' (6, 29))) (6, 12)"

definition method_constructor :: node where
  "method_constructor =
     Node ''ClassMethod'' [(''kind'', JStr ''constructor'')] (Some (5, 4))
       [(''key'', Identifier ''constructor'' (5, 4)),
        (''body'', BlockStatement [VariableDeclaration ''const'' [decl_constructorVar] (6, 6)] (5, 18))]"

definition class_TestClass :: node where
  "class_TestClass =
     Node ''ClassDeclaration'' [] (Some (4, 2))
       [(''id'', Identifier ''TestClass'' (4, 8)),
        (''body'', Node ''ClassBody'' [] (Some (4, 18)) [(''body'', method_constructor)])]"

definition fun_testFunction :: node where
  "fun_testFunction =
     FunctionDeclaration ''testFunction'' []
       (BlockStatement
          [VariableDeclaration ''const''
             [VariableDeclarator (Identifier ''functionVar'' (3, 8))
                (Some (StringLiteral ''function'' (3, 22))) (3, 8)] (3, 2),
           class_TestClass]
          (2, 24))
       (2, 0)"

definition prog_scopes :: node where
  "prog_scopes =
     File [VariableDeclaration ''const''
             [VariableDeclarator (Identifier ''globalVar'' (1, 6))
                (Some (StringLiteral ''global'' (1, 18))) (1, 6)] (1, 0),
           fun_testFunction]"

text \<open>Two diagrams agree up to assignment ids when they agree after these are blanked.\<close>

definition anon_node :: "FlowNode \<Rightarrow> FlowNode" where
  "anon_node n = (if fn_type n = ''process'' then n \<lparr> fn_id := [] \<rparr> else n)"

definition anon_edge :: "FlowEdge \<Rightarrow> FlowEdge" where
  "anon_edge e = e \<lparr> fe_to := [] \<rparr>"

text \<open>Two runs of the clock and the random source.\<close>

definition clock_a :: "nat \<Rightarrow> nat" where "clock_a k = 1000"
definition random_a :: "nat \<Rightarrow> string" where "random_a k = ''0.25''"
definition clock_b :: "nat \<Rightarrow> nat" where "clock_b k = 1001"
definition random_b :: "nat \<Rightarrow> string" where "random_b k = ''0.75''"

definition df_assign_a :: FlowDiagram where
  "df_assign_a =
     \<lparr> fd_nodes =
         [\<lparr> fn_id = ''var_a'', fn_label = ''a'', fn_type = ''variable'',
            fn_properties = [(''declarationType'', JStr ''let''), (''value'', JNum 1)] \<rparr>,
          mkNode ''assign_1000_0.25'' ''Assignment'' ''process''],
       fd_edges = [mkEdge ''var_a'' ''assign_1000_0.25'' ''data''],
       fd_type = ''data_flow'', fd_title = ''Data Flow - test.ts'' \<rparr>"

definition df_assign_b :: FlowDiagram where
  "df_assign_b =
     \<lparr> fd_nodes =
         [\<lparr> fn_id = ''var_a'', fn_label = ''a'', fn_type = ''variable'',
            fn_properties = [(''declarationType'', JStr ''let''), (''value'', JNum 1)] \<rparr>,
          mkNode ''assign_1001_0.75'' ''Assignment'' ''process''],
       fd_edges = [mkEdge ''var_a'' ''assign_1001_0.75'' ''data''],
       fd_type = ''data_flow'', fd_title = ''Data Flow - test.ts'' \<rparr>"

definition cf_assign :: FlowDiagram where
  "cf_assign =
     \<lparr> fd_nodes =
         [mkNode ''start'' ''Start'' ''start'',
          mkNode ''program_0'' ''Program'' ''process'',
          mkNode ''stmt_1'' ''VariableDeclaration'' ''process'',
          mkNode ''stmt_1'' ''ExpressionStatement'' ''process'',
          mkNode ''end'' ''End'' ''end''],
       fd_edges =
         [mkEdge ''start'' ''program_0'' ''normal'',
          mkEdge ''program_0'' ''stmt_1'' ''normal'',
          mkEdge ''program_0'' ''stmt_1'' ''normal''],
       fd_type = ''control_flow'', fd_title = ''Control Flow - test.ts'' \<rparr>"

definition ct_assign :: FlowDiagram where
  "ct_assign =
     \<lparr> fd_nodes = [], fd_edges = [], fd_type = ''component_tree'',
       fd_title = ''Component Tree - test.ts'' \<rparr>"

text \<open>A project of one file and one dependency that is used in that file and in another.\<close>

definition dg_file_a :: DGFile where
  "dg_file_a = \<lparr> dgf_path = ''src/a.ts'', dgf_name = ''a.ts'', dgf_type = JStr ''other'', dgf_size = JNum 10 \<rparr>"

definition dg_project :: "string list \<Rightarrow> DGProject" where
  "dg_project usedIn =
     \<lparr> dgp_files = Some [dg_file_a],
       dgp_dependencies = Some [\<lparr> dgd_name = ''react'', dgd_version = JStr ''18.0.0'',
                                  dgd_type = JStr ''production'', dgd_usedIn = Some usedIn \<rparr>] \<rparr>"

text \<open>
  The Counter component of the repository's component tests, its markup cut down to one
  element:
  \<^verbatim>\<open>import React, { useState } from 'react';
function Counter() {
  const [count, setCount] = useState(0);
  const [name, setName] = useState('');
  return <p>{count}</p>;
}\<close>
\<close>

definition decl_count :: node where
  "decl_count =
     VariableDeclarator
       (Node ''ArrayPattern'' [] (Some (3, 8))
          [(''elements'', Identifier ''count'' (3, 9)), (''elements'', Identifier ''setCount'' (3, 16))])
       (Some (Node ''CallExpression'' [] (Some (3, 28))
          [(''callee'', Identifier ''useState'' (3, 28)), (''arguments'', NumericLiteral 0 (3, 37))]))
       (3, 8)"

definition decl_name :: node where
  "decl_name =
     VariableDeclarator
       (Node ''ArrayPattern'' [] (Some (4, 8))
          [(''elements'', Identifier ''name'' (4, 9)), (''elements'', Identifier ''setName'' (4, 15))])
       (Some (Node ''CallExpression'' [] (Some (4, 26))
          [(''callee'', Identifier ''useState'' (4, 26)), (''arguments'', StringLiteral [] (4, 35))]))
       (4, 8)"

definition comp_Counter :: node where
  "comp_Counter =
     FunctionDeclaration ''Counter'' []
       (BlockStatement
          [VariableDeclaration ''const'' [decl_count] (3, 2),
           VariableDeclaration ''const'' [decl_name] (4, 2),
           ReturnStatement
             (Node ''JSXElement'' [] (Some (5, 9))
                [(''openingElement'', Node ''JSXOpeningElement'' [] (Some (5, 9))
                    [(''name'', Node ''JSXIdentifier'' [(''name'', JStr ''p'')] (Some (5, 10)) [])]),
                 (''children'', Node ''JSXExpressionContainer'' [] (Some (5, 12))
                    [(''expression'', Identifier ''count'' (5, 13))]),
                 (''closingElement'', Node ''JSXClosingElement'' [] (Some (5, 19))
                    [(''name'', Node ''JSXIdentifier'' [(''name'', JStr ''p'')] (Some (5, 21)) [])])])
             (5, 2)]
          (2, 19))
       (2, 0)"

definition import_react :: node where
  "import_react =
     Node ''ImportDeclaration'' [] (Some (1, 0))
       [(''specifiers'', Node ''ImportDefaultSpecifier'' [] (Some (1, 7))
           [(''local'', Identifier ''React'' (1, 7))]),
        (''specifiers'', Node ''ImportSpecifier'' [] (Some (1, 16))
           [(''imported'', Identifier ''useState'' (1, 16)), (''local'', Identifier ''useState'' (1, 16))]),
        (''source'', StringLiteral ''react'' (1, 32))]"

definition file_Counter :: node where
  "file_Counter = File [import_react, comp_Counter]"

text \<open>
  The component node of that file as the component analyser finds it when \<open>analyzeFile\<close> runs:
  after \<open>analyzeVariables\<close>.
\<close>

definition comp_Counter_in_file :: node where
  "comp_Counter_in_file =
     (case child (analyzeVariables_tree file_Counter) ''program'' of
        None \<Rightarrow> comp_Counter
      | Some prog \<Rightarrow> last (childs prog ''body''))"

text \<open>
  A variable that is called \<open>unknown\<close>, and an arrow function assigned to another variable:
  \<^verbatim>\<open>var unknown; const g = () => 1;\<close>
\<close>

definition decl_unknown :: node where
  "decl_unknown = VariableDeclarator (Identifier ''unknown'' (1, 4)) None (1, 4)"

definition arrow_g :: node where
  "arrow_g =
     Node ''ArrowFunctionExpression''
       [(''generator'', JBool False), (''async'', JBool False), (''expression'', JBool True)]
       (Some (1, 23)) [(''body'', NumericLiteral 1 (1, 29))]"

definition decl_g :: node where
  "decl_g = VariableDeclarator (Identifier ''g'' (1, 19)) (Some arrow_g) (1, 19)"

definition prog_unknown :: node where
  "prog_unknown =
     File [VariableDeclaration ''var'' [decl_unknown] (1, 0),
           VariableDeclaration ''const'' [decl_g] (1, 13)]"

text \<open>
  A module that re-exports a namespace: \<^verbatim>\<open>export * as ns from 'm';\<close>
\<close>

definition prog_reexport :: node where
  "prog_reexport =
     File [Node ''ExportNamedDeclaration'' [] (Some (1, 0))
             [(''specifiers'', Node ''ExportNamespaceSpecifier'' [] (Some (1, 7))
                 [(''exported'', Identifier ''ns'' (1, 12))]),
              (''source'', StringLiteral ''m'' (1, 20))]]"

text \<open>
  An environment for the examples: paths are joined with a slash, every file name has the
  extension \<open>.ts\<close>, the parser accepts the text \<^verbatim>\<open>let a = 1; a = 2;\<close>, hands over a bare
  identifier for the text \<^verbatim>\<open>a\<close> (a tree without its program root) and rejects everything
  else, and the two analysers find nothing.
\<close>

definition env0 :: "(unit, unit) env" where
  "env0 =
     \<lparr> path_basename = (\<lambda>p. rev (takeWhile (\<lambda>c. c \<noteq> CHR ''/'') (rev p))),
       path_join = (\<lambda>d f. d @ ''/'' @ f),
       path_extname = (\<lambda>f. ''.ts''),
       JSON_parse = (\<lambda>s. Inl (SyntaxError ''JSON'')),
       parse = (\<lambda>s. if s = ''let a = 1; a = 2;'' then Inr prog_assign
                     else if s = ''a'' then Inr (Identifier ''a'' (1, 0))
                     else Inl (SyntaxError s)),
       analyzeFunctions = (\<lambda>ast p. Inr []),
       analyzeComponents = (\<lambda>ast p. Inr []) \<rparr>"

section \<open>Properties of the variable analysis\<close>

definition usage_inv :: "VariableInfo \<Rightarrow> bool" where
  "usage_inv v = (vi_usageCount v = length (vi_usage v) \<and>
     vi_lastUsedAt v = (if vi_usage v = [] then None else Some (vu_location (last (vi_usage v)))))"

lemma usage_inv_create: "usage_inv (createVariableInfo p fp ty)"
  by (simp add: usage_inv_def createVariableInfo_def Let_def)

lemma usage_inv_add: "usage_inv v \<Longrightarrow> usage_inv (add_usage u v)"
  by (simp add: usage_inv_def add_usage_def)

lemma extract_visit_cases:
  "extract_visit fp p st = st \<or> (\<exists>ty. extract_visit fp p st = declare_var (createVariableInfo p fp ty) st)"
  by (auto simp: extract_visit_def Let_def)

lemma all_declare: "list_all P (fst st) \<Longrightarrow> P info \<Longrightarrow> list_all P (fst (declare_var info st))"
  by (simp add: declare_var_def)

lemma all_extract:
  assumes "list_all P (fst st)" and "\<And>ty. P (createVariableInfo p fp ty)"
  shows "list_all P (fst (extract_visit fp p st))"
proof -
  from extract_visit_cases [of fp p st] show ?thesis
  proof
    assume "extract_visit fp p st = st" then show ?thesis using assms(1) by simp
  next
    assume "\<exists>ty. extract_visit fp p st = declare_var (createVariableInfo p fp ty) st"
    then obtain ty where "extract_visit fp p st = declare_var (createVariableInfo p fp ty) st" ..
    then show ?thesis using assms by (simp add: declare_var_def)
  qed
qed

lemma all_extract_fold:
  assumes "\<And>p ty. P (createVariableInfo p fp ty)"
  shows "list_all P (fst st) \<Longrightarrow> list_all P (fst (fold (extract_visit fp) ps st))"
  by (induction ps arbitrary: st) (simp_all add: all_extract assms)

lemma all_usage_visit:
  assumes "list_all P vars" and "\<And>v. P v \<Longrightarrow> P (add_usage (mkUsage p) v)"
  shows "list_all P (usage_visit m p vars)"
proof -
  have "\<And>i. list_all P (vars[i := add_usage (mkUsage p) (vars ! i)])"
  proof -
    fix i show "list_all P (vars[i := add_usage (mkUsage p) (vars ! i)])"
    proof (cases "i < length vars")
      case True
      then have "P (vars ! i)" using assms(1) by (simp add: list_all_length)
      then show ?thesis using assms True by (auto simp: list_all_length nth_list_update)
    next
      case False then show ?thesis using assms(1) by (simp add: list_all_length)
    qed
  qed
  then show ?thesis using assms(1) by (auto simp: usage_visit_def split: option.splits)
qed

lemma all_usage_fold:
  assumes "\<And>p v. P v \<Longrightarrow> P (add_usage (mkUsage p) v)"
  shows "list_all P vars \<Longrightarrow> list_all P (fold (usage_visit m) ps vars)"
  by (induction ps arbitrary: vars) (simp_all add: all_usage_visit assms)

lemma analyzeVariables_all:
  assumes c: "\<And>p ty. P (createVariableInfo p fp ty)"
    and a: "\<And>p v. P v \<Longrightarrow> P (add_usage (mkUsage p) v)"
    and r: "analyzeVariables ast fp = Inr vs"
  shows "list_all P vs"
proof -
  obtain ps where ps: "traverse ast = Inr ps"
    using r by (auto simp: analyzeVariables_def split: sum.splits)
  let ?st = "fold (extract_visit fp) ps ([], Map.empty)"
  have "list_all P (fst ?st)" by (rule all_extract_fold) (auto intro: c)
  then have "list_all P (fold (usage_visit (snd ?st)) ps (fst ?st))"
    by (rule all_usage_fold [rotated]) (rule a)
  moreover have "vs = fold (usage_visit (snd ?st)) ps (fst ?st)"
    using r ps by (simp add: analyzeVariables_def analyzeVariableUsage_def)
  ultimately show ?thesis by simp
qed

lemma analyzeVariables_returns:
  "ntype ast = ''File'' \<or> ntype ast = ''Program'' \<Longrightarrow> \<exists>vs. analyzeVariables ast fp = Inr vs"
  by (auto simp: analyzeVariables_def analyzeVariableUsage_def traverse_def)

lemma usage_inv_all: "analyzeVariables ast fp = Inr vs \<Longrightarrow> list_all usage_inv vs"
  by (rule analyzeVariables_all [of usage_inv]) (auto intro: usage_inv_create usage_inv_add)

text \<open>
  Claim C7. Every descriptor returned by the variable analysis has a usage count equal to
  the length of its usage list, and its \<open>lastUsedAt\<close> is the position of the usage record
  appended last, or undefined when there is none.
\<close>

theorem usage_count_invariant:
  "analyzeVariables ast fp = Inr vs \<Longrightarrow> v \<in> set vs \<Longrightarrow>
     vi_usageCount v = length (vi_usage v) \<and>
     vi_lastUsedAt v = (if vi_usage v = [] then None else Some (vu_location (last (vi_usage v))))"
proof -
  assume r: "analyzeVariables ast fp = Inr vs" and v: "v \<in> set vs"
  have "list_all usage_inv vs" using r by (rule usage_inv_all)
  then show ?thesis using v by (auto simp: list_all_iff usage_inv_def)
qed

theorem usage_count_invariant_witness:
  "\<exists>vs. analyzeVariables prog_assign ''test.ts'' = Inr vs \<and> hd vs \<in> set vs \<and>
     vi_usageCount (hd vs) = length (vi_usage (hd vs)) \<and>
     vi_lastUsedAt (hd vs) =
       (if vi_usage (hd vs) = [] then None else Some (vu_location (last (vi_usage (hd vs)))))"
proof -
  have "case analyzeVariables prog_assign ''test.ts'' of Inl e \<Rightarrow> False | Inr vs \<Rightarrow> vs \<noteq> []"
    by code_simp
  then obtain vs where r: "analyzeVariables prog_assign ''test.ts'' = Inr vs" and ne: "vs \<noteq> []"
    by (auto split: sum.splits)
  from ne have m: "hd vs \<in> set vs" by simp
  from usage_count_invariant [OF r m] r m show ?thesis by blast
qed

definition facets_ok :: "VariableInfo \<Rightarrow> bool" where
  "facets_ok v = list_all (\<lambda>u. vu_isRead u = (\<not> vu_isAssignment u)) (vi_usage v)"

lemma facets_ok_create: "facets_ok (createVariableInfo p fp ty)"
  by (simp add: facets_ok_def createVariableInfo_def Let_def)

lemma facets_ok_add: "facets_ok v \<Longrightarrow> facets_ok (add_usage (mkUsage p) v)"
  by (simp add: facets_ok_def add_usage_def mkUsage_def isRead_def isAssignment_def)

text \<open>
  Claim C10. In every usage record of every returned descriptor the \<open>isRead\<close> facet is the
  negation of the \<open>isAssignment\<close> facet: no record is both, none is neither.
\<close>

theorem isRead_negates_isAssignment:
  "analyzeVariables ast fp = Inr vs \<Longrightarrow> v \<in> set vs \<Longrightarrow> u \<in> set (vi_usage v) \<Longrightarrow>
     vu_isRead u = (\<not> vu_isAssignment u)"
proof -
  assume r: "analyzeVariables ast fp = Inr vs" and v: "v \<in> set vs" and u: "u \<in> set (vi_usage v)"
  have "list_all facets_ok vs"
    by (rule analyzeVariables_all [OF _ _ r]) (auto intro: facets_ok_create facets_ok_add)
  then show ?thesis using v u by (auto simp: list_all_iff facets_ok_def)
qed

theorem isRead_negates_isAssignment_witness:
  "\<exists>vs. analyzeVariables prog_assign ''test.ts'' = Inr vs \<and> hd vs \<in> set vs \<and>
     last (vi_usage (hd vs)) \<in> set (vi_usage (hd vs)) \<and>
     vu_isAssignment (last (vi_usage (hd vs))) \<and> \<not> vu_isRead (last (vi_usage (hd vs)))"
proof -
  have "case analyzeVariables prog_assign ''test.ts'' of Inl e \<Rightarrow> False
        | Inr vs \<Rightarrow> vs \<noteq> [] \<and> vi_usage (hd vs) \<noteq> [] \<and> vu_isAssignment (last (vi_usage (hd vs)))"
    by code_simp
  then obtain vs where r: "analyzeVariables prog_assign ''test.ts'' = Inr vs" and ne: "vs \<noteq> []"
    and ue: "vi_usage (hd vs) \<noteq> []" and a: "vu_isAssignment (last (vi_usage (hd vs)))"
    by (auto split: sum.splits)
  from ne have m: "hd vs \<in> set vs" by simp
  from ue have l: "last (vi_usage (hd vs)) \<in> set (vi_usage (hd vs))" by simp
  from isRead_negates_isAssignment [OF r m l] a r m l show ?thesis by blast
qed

lemma kids_listed: "kc \<in> set kcs \<Longrightarrow> (snd kc, a) \<in> set (descend_kids a kcs)"
  by (induction kcs) auto

lemma descend_closed:
  "(\<forall>p \<in> set (descend a n). set (descend (snd p) (fst p)) \<subseteq> set (descend a n))"
  "(\<forall>p \<in> set (descend_kids a kcs). set (descend (snd p) (fst p)) \<subseteq> set (descend_kids a kcs))"
proof (induction a n and a kcs rule: descend_descend_kids.induct)
  case (1 anc n)
  then show ?case by simp
next
  case (2 anc)
  then show ?case by simp
next
  case (3 anc kc kcs)
  show ?case
  proof
    fix p assume "p \<in> set (descend_kids anc (kc # kcs))"
    then consider "p = (snd kc, anc)" | "p \<in> set (descend anc (snd kc))" | "p \<in> set (descend_kids anc kcs)"
      by auto
    then show "set (descend (snd p) (fst p)) \<subseteq> set (descend_kids anc (kc # kcs))"
    proof cases
      case 1 then show ?thesis by auto
    next
      case 2 with 3(1) show ?thesis by auto
    next
      case 3 with "3.IH"(2) show ?thesis by auto
    qed
  qed
qed

lemma childs_in_kids: "c \<in> set (childs d k) \<Longrightarrow> (k, c) \<in> set (nkids d)"
  by (auto simp: childs_def)

lemma child_in_childs: "child d k = Some c \<Longrightarrow> c \<in> set (childs d k)"
  by (auto simp: child_def split: list.splits)

lemma child_in_kids: "child d k = Some c \<Longrightarrow> (k, c) \<in> set (nkids d)"
  by (rule childs_in_kids) (rule child_in_childs)

lemma child_path_visited:
  assumes "(d, anc) \<in> set (descend a n)" and "child d k = Some c"
  shows "(c, d # anc) \<in> set (descend a n)"
proof -
  have "(k, c) \<in> set (nkids d)" using assms(2) by (rule child_in_kids)
  then have "(c, d # anc) \<in> set (descend anc d)"
    using kids_listed [of "(k, c)" "nkids d" "d # anc"] by simp
  moreover have "set (descend anc d) \<subseteq> set (descend a n)"
    using descend_closed(1) [of a n] assms(1) by fastforce
  ultimately show ?thesis by blast
qed

lemma count_one_index:
  "count_list xs x = 1 \<Longrightarrow> k < length xs \<Longrightarrow> j < length xs \<Longrightarrow> xs ! k = x \<Longrightarrow> xs ! j = x \<Longrightarrow> k = j"
proof (induction xs arbitrary: k j)
  case Nil
  then show ?case by simp
next
  case (Cons a xs)
  show ?case
  proof (cases "a = x")
    case True
    with Cons.prems(1) have z: "count_list xs x = 0" by simp
    then have nx: "x \<notin> set xs" by (simp add: count_list_0_iff)
    have "k = 0"
    proof (cases k)
      case (Suc k')
      with Cons.prems(2,4) have "k' < length xs" and "xs ! k' = x" by simp_all
      then have "x \<in> set xs" using nth_mem by blast
      with nx show ?thesis by simp
    qed simp
    moreover have "j = 0"
    proof (cases j)
      case (Suc j')
      with Cons.prems(3,5) have "j' < length xs" and "xs ! j' = x" by simp_all
      then have "x \<in> set xs" using nth_mem by blast
      with nx show ?thesis by simp
    qed simp
    ultimately show ?thesis by simp
  next
    case False
    with Cons.prems(1) have c: "count_list xs x = 1" by simp
    from False Cons.prems obtain k' where k: "k = Suc k'" by (cases k) auto
    from False Cons.prems obtain j' where j: "j = Suc j'" by (cases j) auto
    from Cons.IH [OF c, of k' j'] Cons.prems k j show ?thesis by simp
  qed
qed

text \<open>Extraction: what the map and the array look like after the first pass.\<close>

definition map_names :: "vstate \<Rightarrow> bool" where
  "map_names st = (\<forall>x j. snd st x = Some j \<longrightarrow> j < length (fst st) \<and> vi_name (fst st ! j) = x)"

definition names_mapped :: "vstate \<Rightarrow> bool" where
  "names_mapped st = (\<forall>v \<in> set (fst st). snd st (vi_name v) \<noteq> None)"

lemma map_names_declare: "map_names st \<Longrightarrow> map_names (declare_var info st)"
  by (auto simp: map_names_def declare_var_def nth_append less_Suc_eq)

lemma names_mapped_declare: "names_mapped st \<Longrightarrow> names_mapped (declare_var info st)"
  by (auto simp: names_mapped_def declare_var_def)

lemma map_names_extract: "map_names st \<Longrightarrow> map_names (extract_visit fp p st)"
  using extract_visit_cases [of fp p st] by (auto intro: map_names_declare)

lemma names_mapped_extract: "names_mapped st \<Longrightarrow> names_mapped (extract_visit fp p st)"
  using extract_visit_cases [of fp p st] by (auto intro: names_mapped_declare)

lemma map_names_fold: "map_names st \<Longrightarrow> map_names (fold (extract_visit fp) ps st)"
  by (induction ps arbitrary: st) (simp_all add: map_names_extract)

lemma names_mapped_fold: "names_mapped st \<Longrightarrow> names_mapped (fold (extract_visit fp) ps st)"
  by (induction ps arbitrary: st) (simp_all add: names_mapped_extract)

lemma extract_grows: "\<exists>ws. fst (extract_visit fp p st) = fst st @ ws"
  using extract_visit_cases [of fp p st] by (auto simp: declare_var_def)

lemma extract_fold_grows: "\<exists>ws. fst (fold (extract_visit fp) ps st) = fst st @ ws"
proof (induction ps arbitrary: st)
  case Nil show ?case by simp
next
  case (Cons p ps)
  obtain ws where a: "fst (extract_visit fp p st) = fst st @ ws" using extract_grows by blast
  obtain ws' where "fst (fold (extract_visit fp) ps (extract_visit fp p st)) = fst (extract_visit fp p st) @ ws'"
    using Cons.IH by blast
  with a show ?case by simp
qed

lemma extract_declarator:
  assumes "ntype d = ''VariableDeclarator''" and "child d ''id'' = Some i" and "ntype i = ''Identifier''"
  shows "extract_visit fp (d, anc) st = declare_var (createVariableInfo (d, anc) fp ''variable'') st"
  using assms by (simp add: extract_visit_def is_a_def)

lemma create_declarator:
  assumes "child d ''id'' = Some i" and "ntype i = ''Identifier''"
  shows "vi_name (createVariableInfo (d, anc) fp ty) = nname i"
    and "vi_line (createVariableInfo (d, anc) fp ty) = line_of d"
    and "vi_column (createVariableInfo (d, anc) fp ty) = column_of d"
  using assms by (simp_all add: createVariableInfo_def Let_def getVariableName_def)

lemma extract_fold_declared:
  assumes "p \<in> set ps" and "extract_visit fp p = declare_var info"
  shows "info \<in> set (fst (fold (extract_visit fp) ps st))"
  using assms(1)
proof (induction ps arbitrary: st)
  case Nil then show ?case by simp
next
  case (Cons q ps)
  show ?case
  proof (cases "p \<in> set ps")
    case True
    then show ?thesis using Cons.IH by simp
  next
    case False
    with Cons.prems have "q = p" by simp
    then have "info \<in> set (fst (extract_visit fp q st))"
      using assms(2) by (simp add: declare_var_def)
    moreover obtain ws where
      "fst (fold (extract_visit fp) ps (extract_visit fp q st)) = fst (extract_visit fp q st) @ ws"
      using extract_fold_grows by blast
    ultimately show ?thesis by simp
  qed
qed

text \<open>The usage pass only appends records: names, positions and earlier records stay.\<close>

definition extends :: "VariableInfo list \<Rightarrow> VariableInfo list \<Rightarrow> bool" where
  "extends vars vars' =
     (length vars' = length vars \<and>
      (\<forall>k < length vars.
         vi_name (vars' ! k) = vi_name (vars ! k) \<and>
         vi_line (vars' ! k) = vi_line (vars ! k) \<and>
         vi_column (vars' ! k) = vi_column (vars ! k) \<and>
         set (vi_usage (vars ! k)) \<subseteq> set (vi_usage (vars' ! k))))"

lemma extends_refl: "extends vars vars"
  by (simp add: extends_def)

lemma extends_trans: "extends a b \<Longrightarrow> extends b c \<Longrightarrow> extends a c"
  unfolding extends_def by (metis subset_trans)

lemma extends_update: "extends vars (vars[j := add_usage u (vars ! j)])"
  unfolding extends_def
proof (intro conjI allI impI)
  show "length (vars[j := add_usage u (vars ! j)]) = length vars" by simp
next
  fix k assume "k < length vars"
  then show "vi_name (vars[j := add_usage u (vars ! j)] ! k) = vi_name (vars ! k)"
    by (cases "k = j") (simp_all add: add_usage_def)
next
  fix k assume "k < length vars"
  then show "vi_line (vars[j := add_usage u (vars ! j)] ! k) = vi_line (vars ! k)"
    by (cases "k = j") (simp_all add: add_usage_def)
next
  fix k assume "k < length vars"
  then show "vi_column (vars[j := add_usage u (vars ! j)] ! k) = vi_column (vars ! k)"
    by (cases "k = j") (simp_all add: add_usage_def)
next
  fix k assume "k < length vars"
  then show "set (vi_usage (vars ! k)) \<subseteq> set (vi_usage (vars[j := add_usage u (vars ! j)] ! k))"
    by (cases "k = j") (auto simp: add_usage_def)
qed

lemma extends_usage_visit: "extends vars (usage_visit m p vars)"
  by (simp add: usage_visit_def extends_refl extends_update split: option.splits)

lemma extends_usage_fold: "extends vars (fold (usage_visit m) ps vars)"
proof (induction ps arbitrary: vars)
  case Nil show ?case by (simp add: extends_refl)
next
  case (Cons p ps)
  have "extends vars (usage_visit m p vars)" by (rule extends_usage_visit)
  moreover have "extends (usage_visit m p vars) (fold (usage_visit m) ps (usage_visit m p vars))"
    by (rule Cons.IH)
  ultimately show ?case by (simp add: extends_trans)
qed

lemma usage_visit_hit:
  assumes "ntype (fst p) = ''Identifier''" and "m (nname (fst p)) = Some j" and "j < length vars"
  shows "mkUsage p \<in> set (vi_usage (usage_visit m p vars ! j))"
  using assms by (simp add: usage_visit_def add_usage_def)

lemma usage_fold_hit:
  assumes "p \<in> set ps" and "ntype (fst p) = ''Identifier''" and "m (nname (fst p)) = Some j"
  shows "j < length vars \<Longrightarrow> mkUsage p \<in> set (vi_usage (fold (usage_visit m) ps vars ! j))"
  using assms(1)
proof (induction ps arbitrary: vars)
  case Nil then show ?case by simp
next
  case (Cons q ps)
  have len: "length (usage_visit m q vars) = length vars"
    using extends_usage_visit [of vars m q] by (simp add: extends_def)
  show ?case
  proof (cases "p \<in> set ps")
    case True
    then show ?thesis using Cons.IH [of "usage_visit m q vars"] Cons.prems(1) len by simp
  next
    case False
    with Cons.prems have q: "q = p" by simp
    have "mkUsage p \<in> set (vi_usage (usage_visit m p vars ! j))"
      using assms(2,3) Cons.prems(1) by (rule usage_visit_hit)
    moreover have "extends (usage_visit m p vars) (fold (usage_visit m) ps (usage_visit m p vars))"
      by (rule extends_usage_fold)
    ultimately show ?thesis using q len Cons.prems(1) by (auto simp: extends_def)
  qed
qed

text \<open>
  The names that the declarations of a file declare with a plain identifier: those of its
  variable declarators, function declarations and class declarations, in source order.
\<close>

definition declared_names :: "node \<Rightarrow> string list" where
  "declared_names ast =
     map (\<lambda>p. getVariableName (fst p))
       (filter (\<lambda>p. ntype (fst p) \<in> set [''VariableDeclarator'', ''FunctionDeclaration'',
                                           ''ClassDeclaration''] \<and>
                     is_a ''Identifier'' (child (fst p) ''id''))
          (descend [] ast))"

text \<open>
  The names of the declarations that \<open>analyzeVariables\<close> extracts: one for each node on which
  its first pass stores a path and for which it builds a descriptor.
\<close>

definition extracted_names :: "node \<Rightarrow> string list" where
  "extracted_names ast = map (\<lambda>p. getVariableName (fst p)) (filter stores_path (descend [] ast))"

text \<open>
  Claim C9. A variable whose declarator has a plain identifier, and whose name matches one
  declaration of the file only, is to carry a usage record at its own declaration, hence a
  usage count of at least one. In \<^verbatim>\<open>var unknown; const g = () => 1;\<close> the name \<open>unknown\<close> is
  declared once. The arrow function assigned to \<open>g\<close> gets a descriptor of its own, and since
  an arrow function has no \<open>id\<close>, \<open>getVariableName\<close> calls that descriptor \<open>unknown\<close> as well. It
  is entered in \<open>variableMap\<close> under that name after the variable's descriptor and replaces
  it there, so the record for the identifier at column 4 goes to the arrow function's
  descriptor, and the variable's descriptor keeps an empty usage list and the count 0.
\<close>

theorem declared_once_but_not_counted:
  "declared_names prog_unknown = [''unknown'', ''g''] \<and>
   count_list (declared_names prog_unknown) ''unknown'' = 1 \<and>
   \<not> isl (analyzeVariables prog_unknown ''test.ts'') \<and>
   map vi_name (projr (analyzeVariables prog_unknown ''test.ts'')) =
     [''unknown'', ''g'', ''unknown''] \<and>
   map vi_declarationType (projr (analyzeVariables prog_unknown ''test.ts'')) =
     [''var'', ''arrow'', ''arrow''] \<and>
   map vi_line (projr (analyzeVariables prog_unknown ''test.ts'')) = [1, 1, 1] \<and>
   map vi_column (projr (analyzeVariables prog_unknown ''test.ts'')) = [4, 19, 23] \<and>
   map vi_usageCount (projr (analyzeVariables prog_unknown ''test.ts'')) = [0, 1, 1] \<and>
   map (map vu_location) (map vi_usage (projr (analyzeVariables prog_unknown ''test.ts''))) =
     [[], [(1, 19)], [(1, 4)]]"
  by code_simp

lemma declarator_descriptor_has_usage:
  assumes r: "analyzeVariables ast fp = Inr vs"
    and t: "traverse ast = Inr ps"
    and d: "(d, anc) \<in> set ps"
    and dt: "ntype d = ''VariableDeclarator''"
    and di: "child d ''id'' = Some i"
    and it: "ntype i = ''Identifier''"
    and pos: "loc_of i = loc_of d"
    and uniq: "count_list (map vi_name vs) (nname i) = 1"
  shows "\<exists>v \<in> set vs. vi_name v = nname i \<and> vi_line v = line_of d \<and> vi_column v = column_of d \<and>
           (\<exists>u \<in> set (vi_usage v). vu_location u = (vi_line v, vi_column v)) \<and>
           1 \<le> vi_usageCount v"
proof -
  let ?st = "fold (extract_visit fp) ps ([], Map.empty)"
  let ?vars = "fst ?st" and ?m = "snd ?st"
  let ?info = "createVariableInfo (d, anc) fp ''variable''"
  have vs: "vs = fold (usage_visit ?m) ps ?vars"
    using r t by (simp add: analyzeVariables_def analyzeVariableUsage_def)
  have extd: "extends ?vars vs" unfolding vs by (rule extends_usage_fold)
  have len: "length vs = length ?vars" using extd by (simp add: extends_def)
  have ps: "ps = descend [] ast" using t by (auto simp: traverse_def split: if_splits)
  have mn: "map_names ?st" by (rule map_names_fold) (simp add: map_names_def)
  have nm: "names_mapped ?st" by (rule names_mapped_fold) (simp add: names_mapped_def)
  have "extract_visit fp (d, anc) = declare_var ?info"
    using extract_declarator [OF dt di it] by (rule ext)
  with d have "?info \<in> set ?vars" by (rule extract_fold_declared)
  then obtain k where k: "k < length ?vars" and vk: "?vars ! k = ?info"
    by (auto simp: in_set_conv_nth)
  have name_k: "vi_name (?vars ! k) = nname i"
    using vk create_declarator(1) [OF di it] by simp
  have "?m (vi_name ?info) \<noteq> None" using nm \<open>?info \<in> set ?vars\<close> by (simp add: names_mapped_def)
  then obtain j where mj: "?m (nname i) = Some j"
    using create_declarator(1) [OF di it] by auto
  with mn have j: "j < length ?vars" and name_j: "vi_name (?vars ! j) = nname i"
    by (auto simp: map_names_def)
  have names: "\<And>q. q < length ?vars \<Longrightarrow> vi_name (vs ! q) = vi_name (?vars ! q)"
    using extd by (simp add: extends_def)
  have "map vi_name vs ! k = nname i" "map vi_name vs ! j = nname i"
    using names [OF k] names [OF j] name_k name_j k j len by simp_all
  moreover have "k < length (map vi_name vs)" "j < length (map vi_name vs)"
    using k j len by simp_all
  ultimately have "k = j"
    using count_one_index [OF uniq] by blast
  have ip: "(i, d # anc) \<in> set ps"
    using d di unfolding ps by (rule child_path_visited)
  have "mkUsage (i, d # anc) \<in> set (vi_usage (vs ! j))"
    unfolding vs using ip _ _ j by (rule usage_fold_hit) (simp_all add: it mj)
  moreover have "vu_location (mkUsage (i, d # anc)) = loc_of i"
    by (simp add: mkUsage_def loc_of_def)
  moreover have "vi_name (vs ! j) = nname i" using extd j name_j by (simp add: extends_def)
  moreover have "vi_line (vs ! j) = line_of d" "vi_column (vs ! j) = column_of d"
    using extd j vk \<open>k = j\<close> create_declarator(2,3) [OF di it] by (auto simp: extends_def)
  moreover have "vs ! j \<in> set vs" using j len by simp
  moreover have "vi_usageCount (vs ! j) = length (vi_usage (vs ! j))"
    using usage_inv_all [OF r] \<open>vs ! j \<in> set vs\<close> by (auto simp: list_all_iff usage_inv_def)
  ultimately show ?thesis
    using pos by (auto simp: loc_of_def intro!: bexI [of _ "vs ! j"] simp: Suc_le_eq length_greater_0_conv)
qed

text \<open>
  The names of the descriptors that \<open>analyzeVariables\<close> returns can be read off the tree:
  one for each node on which the first pass stores a path, in source order.
\<close>

lemma extract_visit_names:
  "map vi_name (fst (extract_visit fp p st)) =
     map vi_name (fst st) @ (if stores_path p then [getVariableName (fst p)] else [])"
  by (auto simp: extract_visit_def stores_path_def declare_var_def createVariableInfo_def Let_def)

lemma extract_fold_names:
  "map vi_name (fst (fold (extract_visit fp) ps st)) =
     map vi_name (fst st) @ map (\<lambda>p. getVariableName (fst p)) (filter stores_path ps)"
  by (induction ps arbitrary: st) (simp_all add: extract_visit_names)

lemma extends_names: "extends vars vars' \<Longrightarrow> map vi_name vars' = map vi_name vars"
  by (simp add: extends_def list_eq_iff_nth_eq)

lemma analyzeVariables_names:
  assumes "analyzeVariables ast fp = Inr vs"
  shows "map vi_name vs = extracted_names ast"
proof -
  let ?ps = "descend [] ast"
  let ?st = "fold (extract_visit fp) ?ps ([], Map.empty)"
  from assms have t: "traverse ast = Inr ?ps"
    by (auto simp: analyzeVariables_def traverse_def split: if_splits)
  with assms have "vs = fold (usage_visit (snd ?st)) ?ps (fst ?st)"
    by (simp add: analyzeVariables_def analyzeVariableUsage_def)
  then have "extends (fst ?st) vs" by (simp add: extends_usage_fold)
  then have "map vi_name vs = map vi_name (fst ?st)" by (rule extends_names)
  then show ?thesis by (simp add: extract_fold_names extracted_names_def)
qed

text \<open>
  Claim C9, as the code has it. The usage pass visits the identifier of a declarator like
  any other identifier, and \<open>variableMap\<close> leads from a name to the descriptor entered last
  under it. Take a visited \<open>VariableDeclarator\<close> whose \<open>id\<close> is an identifier and whose name
  matches exactly one of the declarations that \<open>analyzeVariables\<close> extracts from the file,
  where an arrow function assigned to a variable is one more such declaration, under the
  name \<open>unknown\<close>. Then the returned descriptor of that name carries the declarator's position
  and a usage record at that same position (the parser starts a declarator at its \<open>id\<close>), so
  its usage count is at least one whether or not the variable is mentioned again.
\<close>

theorem declaration_counts_as_usage:
  assumes r: "analyzeVariables ast fp = Inr vs"
    and t: "traverse ast = Inr ps"
    and d: "(d, anc) \<in> set ps"
    and dt: "ntype d = ''VariableDeclarator''"
    and di: "child d ''id'' = Some i"
    and it: "ntype i = ''Identifier''"
    and pos: "loc_of i = loc_of d"
    and uniq: "count_list (extracted_names ast) (nname i) = 1"
  shows "\<exists>v \<in> set vs. vi_name v = nname i \<and> vi_line v = line_of d \<and> vi_column v = column_of d \<and>
           (\<exists>u \<in> set (vi_usage v). vu_location u = (vi_line v, vi_column v)) \<and>
           1 \<le> vi_usageCount v"
proof -
  from uniq have "count_list (map vi_name vs) (nname i) = 1"
    by (simp add: analyzeVariables_names [OF r])
  with r t d dt di it pos show ?thesis by (rule declarator_descriptor_has_usage)
qed

theorem declaration_counts_as_usage_witness:
  "\<exists>vs. analyzeVariables prog_assign ''test.ts'' = Inr vs \<and>
     (\<exists>v \<in> set vs. vi_name v = ''a'' \<and> vi_line v = 1 \<and> vi_column v = 4 \<and>
        (\<exists>u \<in> set (vi_usage v). vu_location u = (vi_line v, vi_column v)) \<and>
        1 \<le> vi_usageCount v)"
proof -
  let ?i = "Identifier ''a'' (1, 4)"
  let ?anc = "[stmt_let_a, Program [stmt_let_a, stmt_set_a], prog_assign]"
  have "\<not> isl (analyzeVariables prog_assign ''test.ts'')" by code_simp
  then obtain vs where r: "analyzeVariables prog_assign ''test.ts'' = Inr vs"
    by (cases "analyzeVariables prog_assign ''test.ts''") simp_all
  have u: "count_list (extracted_names prog_assign) ''a'' = 1" by code_simp
  have t: "traverse prog_assign = Inr (descend [] prog_assign)"
    by (simp add: traverse_def prog_assign_def File_def)
  have d: "(decl_a, ?anc) \<in> set (descend [] prog_assign)" by code_simp
  have dt: "ntype decl_a = ''VariableDeclarator''" by code_simp
  have di: "child decl_a ''id'' = Some ?i" by code_simp
  have it: "ntype ?i = ''Identifier''" by code_simp
  have pos: "loc_of ?i = loc_of decl_a" by code_simp
  have n: "nname ?i = ''a''" by code_simp
  have l: "line_of decl_a = 1" "column_of decl_a = 4" by code_simp+
  from declaration_counts_as_usage [OF r t d dt di it pos] u n l r show ?thesis by auto
qed

section \<open>Properties of scope resolution\<close>

lemma determineScope_loop_char:
  "determineScope_loop (PPath p) =
     (ntype (fst p) \<in> {''ClassMethod'', ''ClassPrivateMethod'', ''ClassDeclaration'', ''ClassExpression''})"
  by (cases "path_parent p") auto

lemma determineScope_char:
  "determineScope p =
     (if ntype (fst p) \<in> {''ClassMethod'', ''ClassPrivateMethod'', ''ClassDeclaration'', ''ClassExpression''}
      then ''class''
      else if \<exists>a \<in> set (snd p). isFunction a then ''function''
      else ''module'')"
proof -
  have "(getFunctionParent p \<noteq> None) = (\<exists>a \<in> set (snd p). isFunction a)"
    by (auto simp: getFunctionParent_def find_None_iff)
  then show ?thesis
    unfolding determineScope_def Let_def determineScope_loop_char by simp
qed

text \<open>
  Claim C6. Scope resolution is total and answers \<open>module\<close>, \<open>function\<close> or \<open>class\<close>; a
  top-level variable is \<open>module\<close> and a variable of a plain function is \<open>function\<close>. For a
  variable declared inside a class method the claim (and the repository's own scope test)
  says \<open>class\<close>, but the class loop leaves the path chain after one step, and the enclosing
  method is found as the function parent: on the program of the scope test
  \<open>constructorVar\<close> resolves to \<open>function\<close>.
\<close>

theorem scope_of_constructorVar_is_function:
  "(case analyzeVariables prog_scopes ''test.ts'' of Inl e \<Rightarrow> [] | Inr vs \<Rightarrow> map (\<lambda>v. (vi_name v, vi_scope v)) vs)
  = [(''globalVar'', ''module''), (''testFunction'', ''module''), (''functionVar'', ''function''),
     (''TestClass'', ''class''), (''constructorVar'', ''function'')]"
  by code_simp

section \<open>Properties of the complexity metric\<close>

lemma FA_calculateComplexity_ge_1: "1 \<le> FA_calculateComplexity n"
  by (simp add: FA_calculateComplexity_def)

lemma FA_calculateComplexity_function_node:
  assumes "isFunctionLike3 (ntype n)"
  shows "FA_calculateComplexity n = 1"
proof -
  have "findComplexityNodes n = 0"
    using assms
    by (subst findComplexityNodes.simps) (auto simp: isFunctionLike3_def isLoop5_def isLoop3_def)
  then show ?thesis by (simp add: FA_calculateComplexity_def)
qed

text \<open>The count is right once the walk is inside the body; the variable tracker's walk gets there.\<close>

lemma FA_calculateComplexity_scenario_body: "FA_calculateComplexity scenario_body = 4"
  by code_simp

lemma VT_calculateComplexity_scenario: "VT_calculateComplexity scenario_f = 4"
  by code_simp

text \<open>
  Claim C1. The complexity is at least one and counts the decision points that
  \<open>findComplexityNodes\<close> reaches. The function analyser hands it the function node itself,
  whose body it never enters, so for the function of the scenario, with three \<open>if\<close>
  statements, the result is 1 where the claim (and the repository's test, which expects
  more than 1) says 4.
\<close>

theorem FA_complexity_of_scenario_is_1: "FA_calculateComplexity scenario_f = 1"
  by code_simp

section \<open>Properties of the flow graphs\<close>

definition st_ids :: "fstate \<Rightarrow> string set" where
  "st_ids st = fn_id ` set (fst st)"

definition cf_inv :: "fstate \<Rightarrow> bool" where
  "cf_inv st =
     (''start'' \<in> st_ids st \<and>
      (\<forall>e \<in> set (snd st). fe_from e \<in> st_ids st \<and> fe_to e \<in> st_ids st \<and> fe_to e \<noteq> ''end'') \<and>
      length (filter (\<lambda>n. fn_type n = ''start'') (fst st)) = 1 \<and>
      (\<forall>n \<in> set (fst st). fn_type n \<noteq> ''end''))"

lemma mkNode_sel [simp]:
  "fn_id (mkNode i l t) = i" "fn_label (mkNode i l t) = l" "fn_type (mkNode i l t) = t"
  by (simp_all add: mkNode_def)

lemma mkEdge_sel [simp]:
  "fe_from (mkEdge f t ty) = f" "fe_to (mkEdge f t ty) = t" "fe_type (mkEdge f t ty) = ty"
  by (simp_all add: mkEdge_def)

lemma ids_push_node [simp]: "st_ids (push_node n st) = insert (fn_id n) (st_ids st)"
  by (auto simp: st_ids_def push_node_def)

lemma ids_push_edge [simp]: "st_ids (push_edge e st) = st_ids st"
  by (simp add: st_ids_def push_edge_def)

lemma inv_push_node:
  "cf_inv st \<Longrightarrow> fn_type n \<noteq> ''start'' \<Longrightarrow> fn_type n \<noteq> ''end'' \<Longrightarrow> cf_inv (push_node n st)"
  unfolding cf_inv_def ids_push_node by (auto simp: push_node_def)

lemma inv_push_edge:
  "cf_inv st \<Longrightarrow> fe_from e \<in> st_ids st \<Longrightarrow> fe_to e \<in> st_ids st \<Longrightarrow> fe_to e \<noteq> ''end'' \<Longrightarrow>
     cf_inv (push_edge e st)"
  unfolding cf_inv_def ids_push_edge by (auto simp: push_edge_def)

text \<open>One node with a fresh id hanging from a node already present.\<close>

lemma inv_attach:
  assumes "cf_inv st" and "fe_from e \<in> st_ids st" and "ty \<noteq> ''start''" and "ty \<noteq> ''end''"
    and "i \<noteq> ''end''" and "fe_to e = i"
  shows "cf_inv (push_edge e (push_node (mkNode i l ty) st))"
proof -
  have "cf_inv (push_node (mkNode i l ty) st)"
    using assms(1,3,4) by (intro inv_push_node) simp_all
  then show ?thesis
    using assms(2,5,6) by (intro inv_push_edge) simp_all
qed

lemma inv_if:
  assumes "cf_inv st" and "parentId \<in> st_ids st"
  shows "cf_inv (analyzeIfStatement stmt k parentId st) \<and>
         st_ids st \<subseteq> st_ids (analyzeIfStatement stmt k parentId st)"
proof -
  let ?ifId = "''if_'' @ decimal k"
  let ?st1 = "push_edge (mkEdge parentId ?ifId ''normal'') (push_node (mkNode ?ifId ''If Condition'' ''decision'') st)"
  let ?thenId = "''then_'' @ decimal (k + 1)"
  let ?e2 = "(mkEdge ?ifId ?thenId ''conditional'') \<lparr> fe_condition := Some ''true'' \<rparr>"
  let ?st2 = "push_edge ?e2 (push_node (mkNode ?thenId ''Then'' ''process'') ?st1)"
  let ?elseId = "''else_'' @ decimal (k + 2)"
  let ?e3 = "(mkEdge ?ifId ?elseId ''conditional'') \<lparr> fe_condition := Some ''false'' \<rparr>"
  let ?st3 = "push_edge ?e3 (push_node (mkNode ?elseId ''Else'' ''process'') ?st2)"
  have 1: "cf_inv ?st1"
    by (rule inv_attach) (use assms in \<open>simp_all\<close>)
  have 2: "cf_inv ?st2"
    by (rule inv_attach) (use 1 in \<open>simp_all\<close>)
  have 3: "cf_inv ?st3"
    by (rule inv_attach) (use 2 in \<open>simp_all\<close>)
  have "analyzeIfStatement stmt k parentId st = (if child stmt ''alternate'' \<noteq> None then ?st3 else ?st2)"
    by (simp add: analyzeIfStatement_def Let_def)
  moreover have "st_ids st \<subseteq> st_ids ?st2" "st_ids st \<subseteq> st_ids ?st3" by auto
  ultimately show ?thesis using 2 3 by presburger
qed

lemma inv_loop:
  assumes "cf_inv st" and "parentId \<in> st_ids st"
  shows "cf_inv (analyzeLoopStatement stmt k parentId st) \<and>
         st_ids st \<subseteq> st_ids (analyzeLoopStatement stmt k parentId st)"
proof -
  let ?loopId = "''loop_'' @ decimal k"
  let ?ty = "if ntype stmt = ''ForStatement'' then ''For Loop''
             else if ntype stmt = ''WhileStatement'' then ''While Loop'' else ''Do-While Loop''"
  let ?st1 = "push_edge (mkEdge parentId ?loopId ''normal'') (push_node (mkNode ?loopId ?ty ''loop'') st)"
  let ?bodyId = "''body_'' @ decimal (k + 1)"
  let ?st2 = "push_edge (mkEdge ?loopId ?bodyId ''normal'') (push_node (mkNode ?bodyId ''Loop Body'' ''process'') ?st1)"
  let ?st3 = "push_edge (mkEdge ?bodyId ?loopId ''loop'') ?st2"
  have 1: "cf_inv ?st1"
    by (rule inv_attach) (use assms in \<open>simp_all\<close>)
  have 2: "cf_inv ?st2"
    by (rule inv_attach) (use 1 in \<open>simp_all\<close>)
  have 3: "cf_inv ?st3"
    by (rule inv_push_edge) (use 2 in \<open>simp_all\<close>)
  have "analyzeLoopStatement stmt k parentId st = ?st3"
    by (simp add: analyzeLoopStatement_def Let_def)
  moreover have "st_ids st \<subseteq> st_ids ?st3" by auto
  ultimately show ?thesis using 3 by simp
qed

lemma inv_cases:
  "cf_inv st \<Longrightarrow> switchId \<in> st_ids st \<Longrightarrow>
     cf_inv (analyzeSwitchCases cs k switchId st) \<and> st_ids st \<subseteq> st_ids (analyzeSwitchCases cs k switchId st)"
proof (induction cs arbitrary: k st)
  case Nil
  then show ?case by simp
next
  case (Cons c cs)
  let ?caseId = "''case_'' @ decimal k"
  let ?st1 = "push_edge (mkEdge switchId ?caseId ''conditional'') (push_node (mkNode ?caseId (caseLabel c) ''process'') st)"
  have 1: "cf_inv ?st1"
    by (rule inv_attach) (use Cons.prems in \<open>simp_all\<close>)
  have s: "switchId \<in> st_ids ?st1" using Cons.prems(2) by simp
  have "cf_inv (analyzeSwitchCases cs (k + 1) switchId ?st1) \<and>
        st_ids ?st1 \<subseteq> st_ids (analyzeSwitchCases cs (k + 1) switchId ?st1)"
    using 1 s by (rule Cons.IH)
  moreover have "st_ids st \<subseteq> st_ids ?st1" by auto
  ultimately show ?case by (simp add: Let_def)
qed

lemma inv_switch:
  assumes "cf_inv st" and "parentId \<in> st_ids st"
  shows "cf_inv (analyzeSwitchStatement stmt k parentId st) \<and>
         st_ids st \<subseteq> st_ids (analyzeSwitchStatement stmt k parentId st)"
proof -
  let ?switchId = "''switch_'' @ decimal k"
  let ?st1 = "push_edge (mkEdge parentId ?switchId ''normal'') (push_node (mkNode ?switchId ''Switch'' ''decision'') st)"
  have 1: "cf_inv ?st1"
    by (rule inv_attach) (use assms in \<open>simp_all\<close>)
  have s: "?switchId \<in> st_ids ?st1" by simp
  have "cf_inv (analyzeSwitchCases (childs stmt ''cases'') (k + 1) ?switchId ?st1) \<and>
        st_ids ?st1 \<subseteq> st_ids (analyzeSwitchCases (childs stmt ''cases'') (k + 1) ?switchId ?st1)"
    using 1 s by (rule inv_cases)
  moreover have "st_ids st \<subseteq> st_ids ?st1" by auto
  ultimately show ?thesis by (simp add: analyzeSwitchStatement_def Let_def)
qed

lemma inv_statement:
  assumes "cf_inv st" and "parentId \<in> st_ids st"
  shows "cf_inv (analyzeStatementControlFlow stmt k parentId st) \<and>
         st_ids st \<subseteq> st_ids (analyzeStatementControlFlow stmt k parentId st)"
proof -
  let ?stmtId = "''stmt_'' @ decimal k"
  let ?st1 = "push_edge (mkEdge parentId ?stmtId ''normal'') (push_node (mkNode ?stmtId (ntype stmt) ''process'') st)"
  have "cf_inv ?st1"
    by (rule inv_attach) (use assms in \<open>simp_all\<close>)
  moreover have "st_ids st \<subseteq> st_ids ?st1" by auto
  ultimately show ?thesis
    using inv_if [OF assms] inv_loop [OF assms] inv_switch [OF assms]
    by (simp add: analyzeStatementControlFlow_def Let_def)
qed

lemma inv_statements:
  "cf_inv st \<Longrightarrow> parentId \<in> st_ids st \<Longrightarrow>
     cf_inv (fold (\<lambda>stmt. analyzeStatementControlFlow stmt k parentId) ss st)"
proof (induction ss arbitrary: st)
  case Nil then show ?case by simp
next
  case (Cons s ss)
  have "cf_inv (analyzeStatementControlFlow s k parentId st)"
    and "parentId \<in> st_ids (analyzeStatementControlFlow s k parentId st)"
    using inv_statement [OF Cons.prems, of s k] Cons.prems(2) by auto
  then show ?case using Cons.IH by simp
qed

lemma inv_program: "cf_inv st \<Longrightarrow> cf_inv (analyzeProgramControlFlow p k st)"
proof -
  assume a: "cf_inv st"
  let ?programId = "''program_'' @ decimal k"
  let ?st1 = "push_edge (mkEdge ''start'' ?programId ''normal'') (push_node (mkNode ?programId ''Program'' ''process'') st)"
  have s: "''start'' \<in> st_ids st" using a by (simp add: cf_inv_def)
  have 1: "cf_inv ?st1"
    by (rule inv_attach) (use a s in \<open>simp_all\<close>)
  have "?programId \<in> st_ids ?st1" by simp
  with 1 have "cf_inv (fold (\<lambda>stmt. analyzeStatementControlFlow stmt (k + 1) ?programId) (childs (fst p) ''body'') ?st1)"
    by (rule inv_statements)
  then show ?thesis using 1 by (simp add: analyzeProgramControlFlow_def Let_def)
qed

lemma inv_function: "cf_inv st \<Longrightarrow> cf_inv (analyzeFunctionControlFlow p k st)"
proof -
  assume a: "cf_inv st"
  let ?functionId = "''func_'' @ FD_getFunctionName p @ ''_'' @ decimal k"
  let ?st1 = "push_node (mkNode ?functionId (FD_getFunctionName p) ''function'') st"
  have 1: "cf_inv ?st1" using a by (intro inv_push_node) simp_all
  have 2: "?functionId \<in> st_ids ?st1" by simp
  show ?thesis
    using 1 inv_statement [OF 1 2]
    by (simp add: analyzeFunctionControlFlow_def Let_def split: option.splits)
qed

lemma inv_cf_visit: "cf_inv st \<Longrightarrow> cf_inv (cf_visit k p st)"
  by (simp add: cf_visit_def inv_program inv_function)

lemma inv_cf_fold: "cf_inv st \<Longrightarrow> cf_inv (fold (cf_visit k) ps st)"
  by (induction ps arbitrary: st) (simp_all add: inv_cf_visit)

lemma cf_inv_start: "cf_inv (push_node (mkNode ''start'' ''Start'' ''start'') ([], []))"
  by (simp add: cf_inv_def st_ids_def push_node_def)

lemma reach_target: "reach es a b \<Longrightarrow> a = b \<or> (\<exists>e \<in> set es. fe_to e = b)"
  by (induction rule: reach.induct) auto

lemma cf_result:
  assumes "generateControlFlow ast fp = Inr g"
  shows "\<exists>st. cf_inv st \<and> fd_nodes g = fst st @ [mkNode ''end'' ''End'' ''end''] \<and> fd_edges g = snd st"
proof -
  obtain ps where ps: "traverse ast = Inr ps"
    using assms by (auto simp: generateControlFlow_def split: sum.splits)
  let ?st = "fold (cf_visit 0) ps (push_node (mkNode ''start'' ''Start'' ''start'') ([], []))"
  have "cf_inv ?st" by (rule inv_cf_fold) (rule cf_inv_start)
  moreover have "fd_nodes g = fst ?st @ [mkNode ''end'' ''End'' ''end'']" "fd_edges g = snd ?st"
    using assms ps by (auto simp: generateControlFlow_def Let_def push_node_def)
  ultimately show ?thesis by blast
qed

lemma cf_properties:
  assumes "generateControlFlow ast fp = Inr g"
  shows "edges_closed g" and "count_type ''start'' g = 1" and "count_type ''end'' g = 1"
    and "\<forall>e \<in> set (fd_edges g). fe_to e \<noteq> ''end''" and "\<not> reach (fd_edges g) ''start'' ''end''"
proof -
  obtain st where inv: "cf_inv st" and n: "fd_nodes g = fst st @ [mkNode ''end'' ''End'' ''end'']"
    and e: "fd_edges g = snd st"
    using cf_result [OF assms] by blast
  have ids: "st_ids st \<subseteq> node_ids g" by (auto simp: st_ids_def node_ids_def n)
  show "edges_closed g"
    using inv ids by (auto simp: edges_closed_def list_all_iff cf_inv_def e)
  show "count_type ''start'' g = 1"
    using inv by (simp add: count_type_def n cf_inv_def)
  have "filter (\<lambda>n. fn_type n = ''end'') (fst st) = []"
    using inv by (simp add: cf_inv_def filter_empty_conv)
  then show "count_type ''end'' g = 1" by (simp add: count_type_def n)
  show noend: "\<forall>e \<in> set (fd_edges g). fe_to e \<noteq> ''end''"
    using inv by (simp add: cf_inv_def e)
  show "\<not> reach (fd_edges g) ''start'' ''end''"
  proof
    assume "reach (fd_edges g) ''start'' ''end''"
    then have "''start'' = ''end'' \<or> (\<exists>e \<in> set (fd_edges g). fe_to e = ''end'')"
      by (rule reach_target)
    with noend show False by simp
  qed
qed

text \<open>Data flow: the map only names nodes that exist.\<close>

definition df_inv :: "dstate \<Rightarrow> bool" where
  "df_inv st =
     ((\<forall>x v. ds_variableMap st x = Some v \<longrightarrow> v \<in> fn_id ` set (ds_nodes st)) \<and>
      (\<forall>e \<in> set (ds_edges st). fe_from e \<in> fn_id ` set (ds_nodes st) \<and>
                                 fe_to e \<in> fn_id ` set (ds_nodes st)))"

lemma df_inv_visit: "df_inv st \<Longrightarrow> df_inv (df_visit now random p st)"
  unfolding df_inv_def df_visit_def Let_def
  by (auto split: option.splits)

lemma df_inv_fold: "df_inv st \<Longrightarrow> df_inv (fold (df_visit now random) ps st)"
  by (induction ps arbitrary: st) (simp_all add: df_inv_visit)

lemma df_closed:
  assumes "generateDataFlow now random ast fp = Inr g"
  shows "edges_closed g"
proof -
  obtain ps where ps: "traverse ast = Inr ps"
    using assms by (auto simp: generateDataFlow_def split: sum.splits)
  let ?st = "fold (df_visit now random) ps
               \<lparr> ds_nodes = [], ds_edges = [], ds_variableMap = Map.empty, ds_calls = 0 \<rparr>"
  have "df_inv ?st" by (rule df_inv_fold) (simp add: df_inv_def)
  moreover have "fd_nodes g = ds_nodes ?st" "fd_edges g = ds_edges ?st"
    using assms ps by (auto simp: generateDataFlow_def Let_def)
  ultimately show ?thesis
    by (auto simp: edges_closed_def list_all_iff df_inv_def node_ids_def)
qed

text \<open>Component tree: the inner traversal starts at a component node and is refused.\<close>

lemma analyzeComponentChildren_raises:
  "ntype (fst p) \<noteq> ''File'' \<Longrightarrow> ntype (fst p) \<noteq> ''Program'' \<Longrightarrow>
     analyzeComponentChildren p cid st = Inl (TraverseError (ntype (fst p)))"
  by (simp add: analyzeComponentChildren_def traverse_def)

lemma ct_visit_Inr: "ct_visit p st = Inr st' \<Longrightarrow> st' = st"
  by (auto simp: ct_visit_def Let_def analyzeComponentChildren_raises split: if_splits)

lemma ct_fold_Inr: "fold_err ct_visit ps st = Inr st' \<Longrightarrow> st' = st"
  by (induction ps arbitrary: st) (auto split: sum.splits dest: ct_visit_Inr)

lemma ct_empty:
  assumes "generateComponentTree ast fp = Inr g"
  shows "fd_nodes g = []" and "fd_edges g = []"
  using assms
  by (auto simp: generateComponentTree_def split: sum.splits dest!: ct_fold_Inr)

text \<open>Data flow under two runs of the clock and the random source.\<close>

definition df_sim :: "dstate \<Rightarrow> dstate \<Rightarrow> bool" where
  "df_sim s t =
     (map anon_node (ds_nodes s) = map anon_node (ds_nodes t) \<and>
      map anon_edge (ds_edges s) = map anon_edge (ds_edges t) \<and>
      ds_variableMap s = ds_variableMap t \<and> ds_calls s = ds_calls t)"

lemma df_sim_visit: "df_sim s t \<Longrightarrow> df_sim (df_visit n1 r1 p s) (df_visit n2 r2 p t)"
  unfolding df_sim_def df_visit_def Let_def
  by (auto simp: anon_node_def anon_edge_def mkNode_def mkEdge_def split: option.splits)

lemma df_sim_fold: "df_sim s t \<Longrightarrow> df_sim (fold (df_visit n1 r1) ps s) (fold (df_visit n2 r2) ps t)"
  by (induction ps arbitrary: s t) (simp_all add: df_sim_visit)

text \<open>Dependency graph: an edge may point to a file that is not listed.\<close>

lemma dg_closed:
  assumes "dg_usedIn projectInfo \<subseteq> dg_paths projectInfo"
  shows "edges_closed (generateDependencyGraph projectInfo)"
proof -
  define files where "files = (case dgp_files projectInfo of None \<Rightarrow> [] | Some fs \<Rightarrow> fs)"
  define deps where "deps = (case dgp_dependencies projectInfo of None \<Rightarrow> [] | Some ds \<Rightarrow> ds)"
  let ?g = "generateDependencyGraph projectInfo"
  have nodes: "fd_nodes ?g = map dg_fileNode files @ map dg_depNode deps"
    and edges: "fd_edges ?g = concat (map dg_depEdges deps)"
    by (simp_all add: generateDependencyGraph_def Let_def files_def deps_def)
  have fid: "fn_id (dg_fileNode f) \<in> node_ids ?g" if "f \<in> set files" for f
    using that by (simp add: node_ids_def nodes)
  have did: "fn_id (dg_depNode d) \<in> node_ids ?g" if "d \<in> set deps" for d
    using that by (simp add: node_ids_def nodes)
  have "fe_from e \<in> node_ids ?g \<and> fe_to e \<in> node_ids ?g" if e: "e \<in> set (fd_edges ?g)" for e
  proof -
    from e obtain d where d: "d \<in> set deps" and ed: "e \<in> set (dg_depEdges d)"
      by (auto simp: edges)
    from ed obtain u where u: "u \<in> set (case dgd_usedIn d of None \<Rightarrow> [] | Some ps \<Rightarrow> ps)"
      and eq: "e = mkEdge (''dep_'' @ dgd_name d) (''file_'' @ sanitize u) ''dependency''"
      by (auto simp: dg_depEdges_def)
    have "u \<in> dg_usedIn projectInfo" using d u unfolding dg_usedIn_def deps_def by blast
    then have "u \<in> dg_paths projectInfo" using assms by blast
    then obtain f where f: "f \<in> set files" and fu: "dgf_path f = u"
      unfolding dg_paths_def files_def by blast
    have "fe_to e = fn_id (dg_fileNode f)" using eq fu by (simp add: dg_fileNode_def mkEdge_def)
    moreover have "fe_from e = fn_id (dg_depNode d)" using eq by (simp add: dg_depNode_def mkEdge_def)
    ultimately show ?thesis using fid [OF f] did [OF d] by simp
  qed
  then show ?thesis by (simp add: edges_closed_def list_all_iff)
qed

lemma dg_dangling: "\<not> edges_closed (generateDependencyGraph (dg_project [''src/a.ts'', ''src/b.ts'']))"
  by code_simp

lemma dg_closed_example: "edges_closed (generateDependencyGraph (dg_project [''src/a.ts'']))"
  by code_simp

lemma cf_assign_eval: "generateControlFlow prog_assign ''test.ts'' = Inr cf_assign"
  by code_simp

lemma df_assign_a_eval: "generateDataFlow clock_a random_a prog_assign ''test.ts'' = Inr df_assign_a"
  by code_simp

lemma df_assign_b_eval: "generateDataFlow clock_b random_b prog_assign ''test.ts'' = Inr df_assign_b"
  by code_simp

lemma ct_assign_eval: "generateComponentTree prog_assign ''test.ts'' = Inr ct_assign"
  by code_simp

text \<open>
  Claim C2. Repeating a synthesis on the same tree gives the same graph for the control-flow
  and component-tree kinds, which are functions of the tree alone. It does not for the
  data-flow kind: the id of an assignment node is made of the clock and a random number, not
  of a counter, so two runs on \<^verbatim>\<open>let a = 1; a = 2;\<close> return different node and edge sets.
\<close>

theorem data_flow_ids_differ:
  "generateDataFlow clock_a random_a prog_assign ''test.ts'' = Inr df_assign_a \<and>
   generateDataFlow clock_b random_b prog_assign ''test.ts'' = Inr df_assign_b \<and>
   map fn_id (fd_nodes df_assign_a) \<noteq> map fn_id (fd_nodes df_assign_b) \<and>
   fd_edges df_assign_a \<noteq> fd_edges df_assign_b"
proof -
  have "map fn_id (fd_nodes df_assign_a) \<noteq> map fn_id (fd_nodes df_assign_b)"
    by (simp add: df_assign_a_def df_assign_b_def)
  moreover have "fd_edges df_assign_a \<noteq> fd_edges df_assign_b"
    by (simp add: df_assign_a_def df_assign_b_def mkEdge_def)
  ultimately show ?thesis using df_assign_a_eval df_assign_b_eval by simp
qed

text \<open>
  Claim C2, as the code has it. Two data-flow syntheses of one tree, whatever the clock and
  the random source give, return the same graph up to the ids of the assignment nodes: the
  same nodes once the ids of process nodes are blanked, the same edges once their targets
  are blanked, the same kind and title.
\<close>

theorem data_flow_same_up_to_assignment_ids:
  assumes "generateDataFlow now1 random1 ast fp = Inr g1"
    and "generateDataFlow now2 random2 ast fp = Inr g2"
  shows "map anon_node (fd_nodes g1) = map anon_node (fd_nodes g2) \<and>
         map anon_edge (fd_edges g1) = map anon_edge (fd_edges g2) \<and>
         fd_type g1 = fd_type g2 \<and> fd_title g1 = fd_title g2"
proof -
  obtain ps where ps: "traverse ast = Inr ps"
    using assms(1) by (auto simp: generateDataFlow_def split: sum.splits)
  let ?s0 = "\<lparr> ds_nodes = [], ds_edges = [], ds_variableMap = Map.empty, ds_calls = 0 \<rparr>"
  have "df_sim (fold (df_visit now1 random1) ps ?s0) (fold (df_visit now2 random2) ps ?s0)"
    by (rule df_sim_fold) (simp add: df_sim_def)
  moreover have "g1 = \<lparr> fd_nodes = ds_nodes (fold (df_visit now1 random1) ps ?s0),
                          fd_edges = ds_edges (fold (df_visit now1 random1) ps ?s0),
                          fd_type = ''data_flow'', fd_title = ''Data Flow - '' @ fp \<rparr>"
    using assms(1) ps by (simp add: generateDataFlow_def Let_def)
  moreover have "g2 = \<lparr> fd_nodes = ds_nodes (fold (df_visit now2 random2) ps ?s0),
                          fd_edges = ds_edges (fold (df_visit now2 random2) ps ?s0),
                          fd_type = ''data_flow'', fd_title = ''Data Flow - '' @ fp \<rparr>"
    using assms(2) ps by (simp add: generateDataFlow_def Let_def)
  ultimately show ?thesis by (simp add: df_sim_def)
qed

theorem data_flow_same_up_to_assignment_ids_witness:
  "generateDataFlow clock_a random_a prog_assign ''test.ts'' = Inr df_assign_a \<and>
   generateDataFlow clock_b random_b prog_assign ''test.ts'' = Inr df_assign_b \<and>
   map anon_node (fd_nodes df_assign_a) = map anon_node (fd_nodes df_assign_b) \<and>
   map anon_edge (fd_edges df_assign_a) = map anon_edge (fd_edges df_assign_b) \<and>
   fd_type df_assign_a = fd_type df_assign_b \<and> fd_title df_assign_a = fd_title df_assign_b"
  using data_flow_same_up_to_assignment_ids [OF df_assign_a_eval df_assign_b_eval]
    df_assign_a_eval df_assign_b_eval by simp

text \<open>
  Claim C3. Node ids are meant to come from a counter, but the counter of
  \<open>generateControlFlow\<close> is handed to its helpers by value and never advances: the two
  statements of \<^verbatim>\<open>let a = 1; a = 2;\<close> both become node \<open>stmt_1\<close>.
\<close>

theorem control_flow_ids_repeat:
  "generateControlFlow prog_assign ''test.ts'' = Inr cf_assign \<and>
   map fn_id (fd_nodes cf_assign) = [''start'', ''program_0'', ''stmt_1'', ''stmt_1'', ''end''] \<and>
   \<not> distinct (map fn_id (fd_nodes cf_assign))"
  using cf_assign_eval by (simp add: cf_assign_def)

text \<open>
  Claim C4. In the control-flow graph of \<^verbatim>\<open>let a = 1; a = 2;\<close> the only end node is not
  reachable from the start node: no edge leads to it.
\<close>

theorem end_node_unreachable:
  "generateControlFlow prog_assign ''test.ts'' = Inr cf_assign \<and>
   filter (\<lambda>n. fn_type n = ''end'') (fd_nodes cf_assign) = [mkNode ''end'' ''End'' ''end''] \<and>
   \<not> reach (fd_edges cf_assign) ''start'' ''end''"
  using cf_assign_eval cf_properties(5) [OF cf_assign_eval] by (simp add: cf_assign_def)

text \<open>
  Claim C4, as the code has it. In every returned control-flow, data-flow and
  component-tree graph each edge joins two nodes of the graph (a returned component tree has
  no nodes at all, because the search for child components raises as soon as a component is
  found); in a dependency graph it does when every \<open>usedIn\<close> path is the path of a listed
  file. A control-flow graph has exactly one start node and exactly one end node; no edge
  leads to the end node, which is therefore not reachable from the start node.
\<close>

theorem flow_graph_invariants:
  "(generateControlFlow ast fp = Inr g1 \<longrightarrow>
      edges_closed g1 \<and> count_type ''start'' g1 = 1 \<and> count_type ''end'' g1 = 1 \<and>
      ''end'' \<notin> set (map fe_to (fd_edges g1)) \<and> \<not> reach (fd_edges g1) ''start'' ''end'') \<and>
   (generateDataFlow now random ast fp = Inr g2 \<longrightarrow> edges_closed g2) \<and>
   (generateComponentTree ast fp = Inr g3 \<longrightarrow> edges_closed g3 \<and> fd_nodes g3 = [] \<and> fd_edges g3 = []) \<and>
   (dg_usedIn projectInfo \<subseteq> dg_paths projectInfo \<longrightarrow>
      edges_closed (generateDependencyGraph projectInfo))"
proof (intro conjI impI)
  assume a: "generateControlFlow ast fp = Inr g1"
  show "edges_closed g1" "count_type ''start'' g1 = 1" "count_type ''end'' g1 = 1"
    "\<not> reach (fd_edges g1) ''start'' ''end''"
    using cf_properties [OF a] by simp_all
  show "''end'' \<notin> set (map fe_to (fd_edges g1))"
    using cf_properties(4) [OF a] by auto
next
  assume "generateDataFlow now random ast fp = Inr g2"
  then show "edges_closed g2" by (rule df_closed)
next
  assume a: "generateComponentTree ast fp = Inr g3"
  show "fd_nodes g3 = []" "fd_edges g3 = []" using ct_empty [OF a] by simp_all
  then show "edges_closed g3" by (simp add: edges_closed_def)
next
  assume "dg_usedIn projectInfo \<subseteq> dg_paths projectInfo"
  then show "edges_closed (generateDependencyGraph projectInfo)" by (rule dg_closed)
qed

theorem flow_graph_invariants_witness:
  "generateControlFlow prog_assign ''test.ts'' = Inr cf_assign \<and>
   edges_closed cf_assign \<and> count_type ''start'' cf_assign = 1 \<and> count_type ''end'' cf_assign = 1 \<and>
   ''end'' \<notin> set (map fe_to (fd_edges cf_assign)) \<and> \<not> reach (fd_edges cf_assign) ''start'' ''end'' \<and>
   generateDataFlow clock_a random_a prog_assign ''test.ts'' = Inr df_assign_a \<and>
   edges_closed df_assign_a \<and>
   generateComponentTree prog_assign ''test.ts'' = Inr ct_assign \<and> edges_closed ct_assign \<and>
   dg_usedIn (dg_project [''src/a.ts'']) \<subseteq> dg_paths (dg_project [''src/a.ts'']) \<and>
   edges_closed (generateDependencyGraph (dg_project [''src/a.ts'']))"
proof -
  have u: "dg_usedIn (dg_project [''src/a.ts'']) \<subseteq> dg_paths (dg_project [''src/a.ts''])"
    by (simp add: dg_usedIn_def dg_paths_def dg_project_def dg_file_a_def)
  show ?thesis
    using flow_graph_invariants [of prog_assign "''test.ts''" cf_assign clock_a random_a df_assign_a
        ct_assign "dg_project [''src/a.ts'']"]
      cf_assign_eval df_assign_a_eval ct_assign_eval u
    by simp
qed

section \<open>Properties of state recognition\<close>

text \<open>
  The declarators that the later analyser takes for a state binding: the initializer is a
  call of the identifier \<open>useState\<close> (the state initializer the analyser knows, the spec's
  \<open>stateInit\<close>), and the declared pattern is an array pattern that begins with an identifier.
\<close>

definition is_state_binding :: "node \<Rightarrow> bool" where
  "is_state_binding d =
     (ntype d = ''VariableDeclarator'' \<and>
      (case child d ''init'' of
         None \<Rightarrow> False
       | Some call \<Rightarrow>
           ntype call = ''CallExpression'' \<and>
           (case child call ''callee'' of
              None \<Rightarrow> False
            | Some f \<Rightarrow> ntype f = ''Identifier'' \<and> nname f = stateInit)) \<and>
      (case child d ''id'' of
         None \<Rightarrow> False
       | Some pat \<Rightarrow>
           ntype pat = ''ArrayPattern'' \<and>
           (case childs pat ''elements'' of [] \<Rightarrow> False | x # xs \<Rightarrow> ntype x = ''Identifier'')))"

definition binding_name :: "node \<Rightarrow> string" where
  "binding_name d =
     (case child d ''id'' of
        None \<Rightarrow> []
      | Some pat \<Rightarrow> (case childs pat ''elements'' of [] \<Rightarrow> [] | x # xs \<Rightarrow> nname x))"

definition binding_initial :: "node \<Rightarrow> node option" where
  "binding_initial d = (case child d ''init'' of None \<Rightarrow> None | Some call \<Rightarrow> first_argument call)"

text \<open>
  The type and the initial value that go with each kind of initial expression: a string,
  number or boolean literal gives its own type and value, an array or object expression
  gives \<open>array\<close> or \<open>object\<close> and the empty array or object, a function gives \<open>function\<close> and
  no value, any other literal gives \<open>any\<close> and what it has as \<open>value\<close>, and anything else,
  or no argument at all, gives \<open>any\<close> and no value.
\<close>

definition kind_of_initial :: "node option \<Rightarrow> string \<times> defval" where
  "kind_of_initial v =
     (case v of
        None \<Rightarrow> (''any'', DVal JUndef)
      | Some n \<Rightarrow>
          if ntype n = ''StringLiteral'' then (''string'', DVal (attr n ''value''))
          else if ntype n = ''NumericLiteral'' then (''number'', DVal (attr n ''value''))
          else if ntype n = ''BooleanLiteral'' then (''boolean'', DVal (attr n ''value''))
          else if ntype n = ''ArrayExpression'' then (''array'', DEmptyArray)
          else if ntype n = ''ObjectExpression'' then (''object'', DEmptyObject)
          else if ntype n = ''FunctionExpression'' \<or> ntype n = ''ArrowFunctionExpression''
            then (''function'', DVal JUndef)
          else if ntype n \<in> set [''NullLiteral'', ''RegExpLiteral'', ''TemplateLiteral'',
                                   ''BigIntLiteral'', ''DecimalLiteral'']
            then (''any'', DVal (attr n ''value''))
          else (''any'', DVal JUndef))"

definition state_definition :: "node \<Rightarrow> StateDefinition" where
  "state_definition d =
     \<lparr> sd_name = binding_name d,
       sd_type = fst (kind_of_initial (binding_initial d)),
       sd_initialValue = snd (kind_of_initial (binding_initial d)),
       sd_isPrivate = False, sd_isReadonly = False, sd_location = loc_of d \<rparr>"

lemma value_kind_table:
  "inferValueType v = fst (kind_of_initial v) \<and> extractDefaultValue v = snd (kind_of_initial v)"
  by (cases v)
     (auto simp: inferValueType_def extractDefaultValue_def kind_of_initial_def is_a_def
        isLiteral_def)

lemma state_visit_char:
  "state_visit d st =
     (if is_state_binding d then
        st \<lparr> cst_definitions := cst_definitions st @ [state_definition d],
             cst_types := (cst_types st)(sd_name (state_definition d) \<mapsto> sd_type (state_definition d)),
             cst_initialValues := (cst_initialValues st)
               (sd_name (state_definition d) \<mapsto> sd_initialValue (state_definition d)) \<rparr>
      else st)"
  by (auto simp: state_visit_def is_state_binding_def state_definition_def binding_name_def
      binding_initial_def value_kind_table is_a_def Let_def loc_of_def
      split: option.splits list.splits)

lemma fold_state_visit_definitions:
  "cst_definitions (fold state_visit ns st) =
     cst_definitions st @ map state_definition (filter is_state_binding ns)"
  by (induction ns arbitrary: st) (simp_all add: state_visit_char)

text \<open>
  On a tree without stored paths the later analyser returns, with one definition for each
  state binding of the component, in source order, and none for anything else. On a tree
  with a stored path it raises.
\<close>

lemma analyzeState_definitions:
  assumes "\<not> list_ex holds_path (traverseAST_nodes component)"
  shows "map_sum id cst_definitions (analyzeState component) =
           Inr (map state_definition (filter is_state_binding (traverseAST_nodes component)))"
  using assms
  by (simp add: analyzeState_def traverseAST_def fold_state_visit_definitions
      del: traverseAST_nodes.simps)

lemma analyzeState_overflow:
  assumes "list_ex holds_path (traverseAST_nodes component)"
  shows "analyzeState component = Inl (RangeError ''Maximum call stack size exceeded'')"
  using assms by (simp add: analyzeState_def traverseAST_def del: traverseAST_nodes.simps)

text \<open>
  A function declaration with a name is among the nodes on which \<open>analyzeVariables\<close> stores a
  path, so a function component of a file that went through \<open>analyzeVariables\<close> holds one.
\<close>

lemma holds_path_set_path: "holds_path (set_path m)"
proof (cases "map_of (nattrs m) ''__path''")
  case None
  then show ?thesis by (simp add: holds_path_def set_path_def)
next
  case (Some v)
  let ?f = "\<lambda>kv. if fst kv = ''__path'' then (''__path'', JPath) else kv"
  from Some have "(''__path'', v) \<in> set (nattrs m)" by (rule map_of_SomeD)
  then have "?f (''__path'', v) \<in> set (map ?f (nattrs m))" by (simp only: set_map) (rule imageI)
  then have "(''__path'', JPath) \<in> set (map ?f (nattrs m))" by simp
  then have "list_ex (\<lambda>kv. snd kv = JPath \<and> fst kv \<notin> set [''type'', ''loc'', ''range''])
      (map ?f (nattrs m))"
    unfolding list_ex_iff by (rule bexI [rotated]) simp
  with Some show ?thesis by (simp add: holds_path_def set_path_def)
qed

lemma annotate_function_holds_path:
  assumes "ntype n = ''FunctionDeclaration''" and "child n ''id'' \<noteq> None"
  shows "holds_path (annotate anc n)"
  using assms by (simp add: stores_path_def Let_def holds_path_set_path)

lemma analyzeState_after_analyzeVariables:
  assumes "ntype n = ''FunctionDeclaration''" and "child n ''id'' \<noteq> None"
  shows "analyzeState (annotate anc n) = Inl (RangeError ''Maximum call stack size exceeded'')"
proof -
  have "holds_path (annotate anc n)" using assms by (rule annotate_function_holds_path)
  then have "list_ex holds_path (traverseAST_nodes (annotate anc n))"
    by (subst traverseAST_nodes.simps) simp
  then show ?thesis by (rule analyzeState_overflow)
qed

text \<open>The earlier analyser never has a name for a call it finds and records nothing.\<close>

lemma analyzeState_v1_no_definitions: "cst_definitions (analyzeState_v1 n) = []"
proof -
  have "\<And>st. fold state_visit_v1 cs st = st" for cs
    by (induction cs) (simp_all add: state_visit_v1_def extractStateNameFromCall_v1_def)
  then show ?thesis by (simp add: analyzeState_v1_def)
qed

lemma Counter_has_no_stored_path: "\<not> list_ex holds_path (traverseAST_nodes comp_Counter)"
  by code_simp

lemma Counter_in_file_holds_path: "list_ex holds_path (traverseAST_nodes comp_Counter_in_file)"
  by code_simp

lemma Counter_bindings:
  "map state_definition (filter is_state_binding (traverseAST_nodes comp_Counter)) =
     [\<lparr> sd_name = ''count'', sd_type = ''number'', sd_initialValue = DVal (JNum 0),
        sd_isPrivate = False, sd_isReadonly = False, sd_location = (3, 8) \<rparr>,
      \<lparr> sd_name = ''name'', sd_type = ''string'', sd_initialValue = DVal (JStr []),
        sd_isPrivate = False, sd_isReadonly = False, sd_location = (4, 8) \<rparr>]"
  by code_simp

text \<open>
  Claim C8. \<^verbatim>\<open>const [count, setCount] = useState(0)\<close> in a component body is to give one state
  definition named \<open>count\<close>, of type \<open>number\<close>, with initial value 0. For the Counter component
  of the component tests the later analyser, on the tree as the parser returns it, gives
  that definition and the one of the second binding (\<open>name\<close>, \<open>string\<close>, the empty string).
  The earlier analyser gives no definition for the same component. And on the tree that
  \<open>analyzeFile\<close> hands to the component analyser, on which \<open>analyzeVariables\<close> has stored its
  paths, the later analyser raises instead of returning.
\<close>

theorem state_of_Counter:
  "cst_definitions (analyzeState_v1 comp_Counter) = [] \<and>
   analyzeState comp_Counter_in_file = Inl (RangeError ''Maximum call stack size exceeded'') \<and>
   map_sum id cst_definitions (analyzeState comp_Counter) =
     Inr [\<lparr> sd_name = ''count'', sd_type = ''number'', sd_initialValue = DVal (JNum 0),
            sd_isPrivate = False, sd_isReadonly = False, sd_location = (3, 8) \<rparr>,
          \<lparr> sd_name = ''name'', sd_type = ''string'', sd_initialValue = DVal (JStr []),
            sd_isPrivate = False, sd_isReadonly = False, sd_location = (4, 8) \<rparr>]"
proof (intro conjI)
  show "cst_definitions (analyzeState_v1 comp_Counter) = []"
    by (rule analyzeState_v1_no_definitions)
  show "analyzeState comp_Counter_in_file = Inl (RangeError ''Maximum call stack size exceeded'')"
    using Counter_in_file_holds_path by (rule analyzeState_overflow)
  show "map_sum id cst_definitions (analyzeState comp_Counter) =
     Inr [\<lparr> sd_name = ''count'', sd_type = ''number'', sd_initialValue = DVal (JNum 0),
            sd_isPrivate = False, sd_isReadonly = False, sd_location = (3, 8) \<rparr>,
          \<lparr> sd_name = ''name'', sd_type = ''string'', sd_initialValue = DVal (JStr []),
            sd_isPrivate = False, sd_isReadonly = False, sd_location = (4, 8) \<rparr>]"
    using analyzeState_definitions [OF Counter_has_no_stored_path] Counter_bindings by simp
qed

section \<open>Properties of error handling\<close>

lemma analyzeFile_Inr:
  assumes "analyzeFile e filePath entry = Inr fileInfo"
  shows "\<exists>content ast. entry = Some (FsFile content) \<and> parse e content = Inr ast \<and>
           analyzeVariables ast filePath = Inr (fi_variables fileInfo)"
  using assms
  by (auto simp: analyzeFile_def analyzeFile_try_def readFileSync_def
      split: option.splits fsnode.splits sum.splits)

text \<open>
  Claim C5. An input error is to raise a distinguishable error rather than return an empty
  model. For a project path at which nothing exists, \<open>analyzeProject\<close> returns the default
  project model and raises nothing.
\<close>

theorem missing_project_gives_default_model:
  "analyzeProject env0 ''/no/such/project'' None =
     Inr \<lparr> pi_name = JStr ''project'', pi_framework = ''unknown'', pi_version = JUndef,
           pi_description = JUndef, pi_files = [], pi_dependencies = [] \<rparr>"
  by (simp add: analyzeProject_def createDefaultProjectInfo_def env0_def)

text \<open>
  Claim C5, as the code has it. The analysis of one file fails fast with an error that tells
  the cause: a file that is not there raises the file-system error; a text the parser
  rejects, or a tree whose root is neither \<open>File\<close> nor \<open>Program\<close>, raises a \<open>ParseError\<close> naming
  the file and wrapping the cause; a file model is returned only for a file that was read and
  parsed. The analysis of a project does not fail: for a project path at which nothing
  exists it returns the default model, which has no files, and a file whose analysis raises
  is left out of the project model.
\<close>

theorem input_errors:
  "(analyzeFile e filePath None = Inl (FsError ''ENOENT'' filePath)) \<and>
   (parse e content = Inl err \<longrightarrow>
      analyzeFile e filePath (Some (FsFile content)) = Inl (ParseError filePath err)) \<and>
   (parse e content = Inr ast \<and> ntype ast \<noteq> ''File'' \<and> ntype ast \<noteq> ''Program'' \<longrightarrow>
      analyzeFile e filePath (Some (FsFile content)) =
        Inl (ParseError filePath (TraverseError (ntype ast)))) \<and>
   (analyzeFile e filePath entry = Inr fileInfo \<longrightarrow>
      (\<exists>content ast. entry = Some (FsFile content) \<and> parse e content = Inr ast)) \<and>
   analyzeProject e projectPath None = Inr (createDefaultProjectInfo e projectPath) \<and>
   pi_files (createDefaultProjectInfo e projectPath) = [] \<and>
   (analyzeFile e filePath (Some f) = Inl err \<longrightarrow>
      analyzeFiles_loop e ((filePath, f) # sfs) = analyzeFiles_loop e sfs)"
proof (intro conjI impI)
  show "analyzeFile e filePath None = Inl (FsError ''ENOENT'' filePath)"
    by (simp add: analyzeFile_def readFileSync_def)
next
  assume "parse e content = Inl err"
  then show "analyzeFile e filePath (Some (FsFile content)) = Inl (ParseError filePath err)"
    by (simp add: analyzeFile_def readFileSync_def analyzeFile_try_def)
next
  assume a: "parse e content = Inr ast \<and> ntype ast \<noteq> ''File'' \<and> ntype ast \<noteq> ''Program''"
  then have "analyzeVariables ast filePath = Inl (TraverseError (ntype ast))"
    by (simp add: analyzeVariables_def traverse_def)
  with a have "analyzeFile_try e filePath content = Inl (TraverseError (ntype ast))"
    by (simp add: analyzeFile_try_def)
  then show "analyzeFile e filePath (Some (FsFile content)) =
      Inl (ParseError filePath (TraverseError (ntype ast)))"
    by (simp add: analyzeFile_def readFileSync_def)
next
  assume "analyzeFile e filePath entry = Inr fileInfo"
  then show "\<exists>content ast. entry = Some (FsFile content) \<and> parse e content = Inr ast"
    using analyzeFile_Inr by blast
next
  show "analyzeProject e projectPath None = Inr (createDefaultProjectInfo e projectPath)"
    by (simp add: analyzeProject_def)
next
  show "pi_files (createDefaultProjectInfo e projectPath) = []"
    by (simp add: createDefaultProjectInfo_def)
next
  assume "analyzeFile e filePath (Some f) = Inl err"
  then show "analyzeFiles_loop e ((filePath, f) # sfs) = analyzeFiles_loop e sfs"
    by simp
qed

lemma env0_parse_bad: "parse env0 ''let a = ;'' = Inl (SyntaxError ''let a = ;'')"
  by (simp add: env0_def)

lemma env0_parse_fragment:
  "parse env0 ''a'' = Inr (Identifier ''a'' (1, 0)) \<and>
   ntype (Identifier ''a'' (1, 0)) \<noteq> ''File'' \<and> ntype (Identifier ''a'' (1, 0)) \<noteq> ''Program''"
  by (simp add: env0_def Identifier_def)

lemma env0_file_good:
  "case analyzeFile env0 ''/p/a.ts'' (Some (FsFile ''let a = 1; a = 2;'')) of
     Inl err \<Rightarrow> False | Inr fileInfo \<Rightarrow> fi_path fileInfo = ''/p/a.ts''"
  by code_simp

theorem input_errors_witness:
  "analyzeFile env0 ''/p/b.ts'' None = Inl (FsError ''ENOENT'' ''/p/b.ts'') \<and>
   analyzeFile env0 ''/p/b.ts'' (Some (FsFile ''let a = ;'')) =
     Inl (ParseError ''/p/b.ts'' (SyntaxError ''let a = ;'')) \<and>
   analyzeFile env0 ''/p/b.ts'' (Some (FsFile ''a'')) =
     Inl (ParseError ''/p/b.ts'' (TraverseError ''Identifier'')) \<and>
   (\<exists>fileInfo ast. analyzeFile env0 ''/p/a.ts'' (Some (FsFile ''let a = 1; a = 2;'')) = Inr fileInfo \<and>
      parse env0 ''let a = 1; a = 2;'' = Inr ast) \<and>
   analyzeProject env0 ''/p'' None = Inr (createDefaultProjectInfo env0 ''/p'') \<and>
   analyzeFiles_loop env0 [(''/p/b.ts'', FsFile ''let a = ;'')] = []"
proof -
  let ?bad = "''let a = ;''"
  obtain fileInfo where g: "analyzeFile env0 ''/p/a.ts'' (Some (FsFile ''let a = 1; a = 2;'')) = Inr fileInfo"
    using env0_file_good by (auto split: sum.splits)
  have a: "analyzeFile env0 ''/p/b.ts'' None = Inl (FsError ''ENOENT'' ''/p/b.ts'')"
    by (rule input_errors [THEN conjunct1])
  have b: "analyzeFile env0 ''/p/b.ts'' (Some (FsFile ?bad)) =
      Inl (ParseError ''/p/b.ts'' (SyntaxError ?bad))"
    by (rule input_errors [THEN conjunct2, THEN conjunct1, THEN mp]) (rule env0_parse_bad)
  have "analyzeFile env0 ''/p/b.ts'' (Some (FsFile ''a'')) =
      Inl (ParseError ''/p/b.ts'' (TraverseError (ntype (Identifier ''a'' (1, 0)))))"
    by (rule input_errors [THEN conjunct2, THEN conjunct2, THEN conjunct1, THEN mp])
       (rule env0_parse_fragment)
  moreover have "ntype (Identifier ''a'' (1, 0)) = ''Identifier''" by (simp add: Identifier_def)
  ultimately have c: "analyzeFile env0 ''/p/b.ts'' (Some (FsFile ''a'')) =
      Inl (ParseError ''/p/b.ts'' (TraverseError ''Identifier''))"
    by (simp only:)
  have "\<exists>content ast. Some (FsFile ''let a = 1; a = 2;'') = Some (FsFile content) \<and>
      parse env0 content = Inr ast"
    by (rule input_errors [THEN conjunct2, THEN conjunct2, THEN conjunct2, THEN conjunct1, THEN mp])
       (rule g)
  then obtain content ast where "Some (FsFile ''let a = 1; a = 2;'') = Some (FsFile content)"
    and "parse env0 content = Inr ast" by blast
  then have p: "parse env0 ''let a = 1; a = 2;'' = Inr ast" by simp
  have d: "analyzeProject env0 ''/p'' None = Inr (createDefaultProjectInfo env0 ''/p'')"
    by (rule input_errors [THEN conjunct2, THEN conjunct2, THEN conjunct2, THEN conjunct2,
          THEN conjunct1])
  have "analyzeFiles_loop env0 ((''/p/b.ts'', FsFile ?bad) # []) = analyzeFiles_loop env0 []"
    by (rule input_errors [THEN conjunct2, THEN conjunct2, THEN conjunct2, THEN conjunct2,
          THEN conjunct2, THEN conjunct2, THEN mp]) (rule b)
  then have l: "analyzeFiles_loop env0 [(''/p/b.ts'', FsFile ?bad)] = []" by simp
  from g p have "\<exists>fileInfo ast. analyzeFile env0 ''/p/a.ts'' (Some (FsFile ''let a = 1; a = 2;'')) = Inr fileInfo \<and>
      parse env0 ''let a = 1; a = 2;'' = Inr ast" by blast
  with a b c d l show ?thesis by (intro conjI)
qed

text \<open>
  A file that was read and parsed can still fail in a later step of the \<open>try\<close>. The last
  step records the imports of the Counter file, and raises on a module that re-exports a
  namespace, whose specifier has no \<open>local\<close>; \<open>analyzeFile\<close> wraps that error like any other.
\<close>

lemma imports_of_Counter:
  "analyzeImportsExports (analyzeVariables_tree file_Counter) =
     Inr ([\<lparr> im_module = JStr ''react'', im_variables = [JStr ''React'', JStr ''useState''],
             im_type = ''named'', im_path = JStr ''react'', im_line = 1, im_column = 0 \<rparr>], [])"
  by code_simp

lemma reexport_raises:
  "analyzeImportsExports (analyzeVariables_tree prog_reexport) = Inl (TypeError ''name'')"
  by code_simp

lemma reexport_variables: "analyzeVariables prog_reexport filePath = Inr []"
  by code_simp

lemma analyzeFile_reexport:
  assumes "parse e content = Inr prog_reexport"
    and "analyzeFunctions e (analyzeVariables_tree prog_reexport) filePath = Inr fs"
    and "analyzeComponents e (analyzeVariables_tree prog_reexport) filePath = Inr cs"
  shows "analyzeFile e filePath (Some (FsFile content)) =
           Inl (ParseError filePath (TypeError ''name''))"
  using assms
  by (simp add: analyzeFile_def readFileSync_def analyzeFile_try_def reexport_variables
      reexport_raises)

end
